theory Spec2Isabelle
  imports Complex_Main "HOL-Library.AList" "HOL-Library.Log_Nat"
begin

section \<open>Numbers\<close>

text \<open>
  A JavaScript number is an IEEE-754 double. The numbers the executor computes with
  (nonces and clock readings) are integers, and the result of a sum or difference of
  integers is the nearest double, a tie going to the even mantissa. Integers up to
  \<open>2^53\<close> in magnitude are doubles, so below that nothing is lost; above, a double is a
  multiple of \<open>2^(n - 53)\<close>, with \<open>n\<close> the number of its bits. An integer that is not
  a double is never the value of a JavaScript number; \<open>safe_integer\<close> is
  \<open>Number.isSafeInteger\<close>.
\<close>

definition round_double :: "int \<Rightarrow> int" where
  "round_double x =
     (if \<bar>x\<bar> \<le> 2 ^ 53 then x
      else (let u = 2 ^ nat (bitlen \<bar>x\<bar> - 53);
                q = \<bar>x\<bar> div u;
                r = \<bar>x\<bar> mod u
            in sgn x * ((if 2 * r < u \<or> (2 * r = u \<and> even q) then q else q + 1) * u)))"

definition safe_integer :: "int \<Rightarrow> bool" where
  "safe_integer n = (\<bar>n\<bar> < 2 ^ 53)"

section \<open>Values exchanged with the collaborators\<close>

text \<open>
  A thrown or rejected JavaScript value, as far as \<open>execute\<close> looks at it: its
  \<open>message\<close> (empty when absent, which is falsy as well), its optional \<open>body\<close> (an array of
  character codes) and the text \<open>JSON.stringify\<close> gives for it.
\<close>

record js_error =
  message :: string
  body :: "nat list option"
  json :: string

text \<open>\<open>new Error(msg)\<close>: no body, and an Error object stringifies to \<open>{}\<close>.\<close>

definition Error :: "string \<Rightarrow> js_error" where
  "Error msg = \<lparr>message = msg, body = None, json = ''{}''\<rparr>"

text \<open>\<open>providers.TransactionResponse\<close> and \<open>providers.TransactionReceipt\<close> (ethers).\<close>

record tx_response =
  hash :: string
  sender :: string
  confirmations :: nat

record tx_receipt =
  transactionHash :: string
  blockNumber :: nat
  status :: "int option"

text \<open>
  \<open>providers.TransactionRequest\<close>: an object, kept as the list of its properties in
  insertion order. The spread \<open>{...overrides, nonce: n}\<close> is \<open>AList.update\<close>: an
  existing \<open>nonce\<close> property keeps its place and takes the new value, a missing one is
  appended.
\<close>

datatype jsval = Num int | Str string

type_synonym transaction_request = "(string \<times> jsval) list"

text \<open>
  \<open>SnarkLogData\<close> is declared outside the sources at hand; \<open>execute\<close> reads its member
  \<open>proofVerified\<close> and stringifies the whole object.
\<close>

record snark_log_data =
  proofVerified :: bool
  stringified :: string

text \<open>The flat record \<open>logEvent\<close> that \<open>execute\<close> assembles; an absent property is \<open>None\<close>.\<close>

record log_event =
  log_tx_type :: string
  log_time_exec_called :: int
  log_tx_hash :: "string option"
  snark_logs :: "string option"
  snark_local_verified :: "bool option"
  wait_submit :: "int option"
  wait_confirm :: "int option"
  log_error :: "string option"
  wait_error :: "int option"
  parsed_error :: "nat list option"
  rpc_endpoint :: string
  user_address :: string

section \<open>Deferreds, callbacks and observable effects\<close>

text \<open>
  \<open>makeRequest\<close> calls \<open>deferred()\<close> twice. The promises of its \<open>k\<close>-th call are named
  \<open>SubmittedPromise k\<close> and \<open>ReceiptPromise k\<close>; each comes with a resolve and a reject
  function, which are the four callbacks of the queued request. (\<open>deferred\<close> is declared
  in \<open>utils/Utils\<close>, outside the sources at hand; it is taken to return the resolve
  function, the reject function and the promise, as the names at its call sites say.)
\<close>

datatype promise = SubmittedPromise nat | ReceiptPromise nat

datatype callback = Resolve promise | Reject promise

datatype payload = Response tx_response | Receipt tx_receipt | Failure js_error

text \<open>
  What the executor does to the outside world, in the order it does it:
  \<open>BalanceEmpty\<close> is \<open>NotificationManager.balanceEmpty()\<close>, \<open>ConsoleError\<close> the
  \<open>console.error(e)\<close> of the catch block, \<open>ForwardOrThrow to data options\<close> the call
  sent to the player contract, \<open>Call cb v\<close> the invocation of a request's callback,
  \<open>LogEvent\<close> the record handed to \<open>EventLogger\<close>, and \<open>HowDidWeGetHere\<close> the
  \<open>console.error\<close> of \<open>noop\<close>.
\<close>

datatype event =
    BalanceEmpty
  | ConsoleError js_error
  | ForwardOrThrow string string transaction_request
  | Call callback payload
  | LogEvent log_event
  | HowDidWeGetHere js_error

record queued_tx_request =
  onSubmissionError :: callback
  onReceiptError :: callback
  onTransactionResponse :: callback
  onTransactionReceipt :: callback
  type :: string
  actionId :: string
  contract :: string
  args :: "jsval list"
  overrides :: transaction_request
  snarkLogs :: "snark_log_data option"

record pending_transaction =
  submitted :: promise
  confirmed :: promise

section \<open>The environment of one call of \<open>execute\<close>\<close>

text \<open>
  An awaited promise resolves, rejects, or never settles. How a piece of asynchronous
  code ends is \<open>Done\<close>, \<open>Raised e\<close> (it threw, or its promise rejected), or \<open>Stuck\<close> (it
  waits forever on a promise that never settles).
\<close>

datatype 'a awaited = Resolves 'a | Rejects js_error | Never

datatype completion = Done | Raised js_error | Stuck

text \<open>
  The answers of the collaborators during one call of \<open>execute\<close>, and the clock readings
  \<open>Date.now()\<close> gives at each place it is read. \<open>forward_settles_after\<close> is the number of
  milliseconds after which the promise of \<open>forwardOrThrow\<close> settles (when it does);
  \<open>logEvent\<close> is \<open>Some e\<close> when the event logger throws \<open>e\<close>.
\<close>

record env =
  now_exec_called :: int
  getBalance :: "rat awaited"
  now_stale_check :: int
  getNonce :: "int awaited"
  openConfirmationWindowForTransaction :: "unit awaited"
  now_called :: int
  populateTransaction :: "(string \<times> string) awaited"
  forwardOrThrow :: "tx_response awaited"
  forward_settles_after :: nat
  now_submitted :: int
  waitForTransaction :: "tx_receipt awaited"
  now_confirmed :: int
  now_errored :: int
  getRpcEndpoint :: string
  getAddress :: string
  localStorage :: "string \<Rightarrow> string option"
  logEvent :: "js_error option"

section \<open>The executor\<close>

definition TX_SUBMIT_TIMEOUT :: nat where
  "TX_SUBMIT_TIMEOUT = 30000"

definition NONCE_STALE_AFTER_MS :: int where
  "NONCE_STALE_AFTER_MS = 20000"

text \<open>
  The balance is a JavaScript number; finite numbers are rationals and \<open><\<close> compares
  them exactly.
\<close>

definition MIN_BALANCE_ETH :: rat where
  "MIN_BALANCE_ETH = 2 / 1000"

text \<open>
  The fields of the class, then the executor in its surroundings: the effects so far
  (\<open>trace\<close>), the number of calls of \<open>makeRequest\<close> so far (\<open>made\<close>, which numbers the
  deferreds), and whether the one worker of the queue waits forever (\<open>hung\<close>).
\<close>

record tx_executor =
  txRequests :: "queued_tx_request list"
  lastTransaction :: int
  nonce :: int

record world = tx_executor +
  trace :: "event list"
  made :: nat
  hung :: bool

text \<open>The constructor; \<open>now\<close> is the \<open>Date.now()\<close> it reads.\<close>

definition TxExecutor :: "int \<Rightarrow> int \<Rightarrow> world" where
  "TxExecutor nonce0 now =
     \<lparr>txRequests = [], lastTransaction = now, nonce = nonce0, trace = [], made = 0, hung = False\<rparr>"

definition default_overrides :: transaction_request where
  "default_overrides = [(''gasPrice'', Num 1000000000), (''gasLimit'', Num 2000000)]"

text \<open>
  \<open>makeRequest\<close>: an omitted \<open>overrides\<close> argument (\<open>None\<close>) takes the default. The request
  is pushed at the tail of the queue and the two promises are returned.
\<close>

definition makeRequest ::
  "string \<Rightarrow> string \<Rightarrow> string \<Rightarrow> jsval list \<Rightarrow> transaction_request option \<Rightarrow>
   snark_log_data option \<Rightarrow> world \<Rightarrow> pending_transaction \<times> world" where
  "makeRequest ty aid con arguments ovr logs w =
     (let k = made w;
          submittedPromise = SubmittedPromise k;
          receiptPromise = ReceiptPromise k;
          txRequest =
            \<lparr>onSubmissionError = Reject submittedPromise,
             onReceiptError = Reject receiptPromise,
             onTransactionResponse = Resolve submittedPromise,
             onTransactionReceipt = Resolve receiptPromise,
             type = ty, actionId = aid, contract = con, args = arguments,
             overrides = (case ovr of None \<Rightarrow> default_overrides | Some given \<Rightarrow> given),
             snarkLogs = logs\<rparr>
      in (\<lparr>submitted = submittedPromise, confirmed = receiptPromise\<rparr>,
          w\<lparr>txRequests := txRequests w @ [txRequest], made := Suc k\<rparr>))"

subsection \<open>One call of \<open>execute\<close>\<close>

text \<open>The local variables of \<open>execute\<close>, on top of the executor.\<close>

record frame = world +
  time_called :: "int option"
  error :: "js_error option"
  time_submitted :: "int option"
  time_confirmed :: "int option"
  time_errored :: "int option"
  tx_hash :: "string option"

definition enter :: "world \<Rightarrow> frame" where
  "enter w = world.extend w (frame.fields None None None None None None)"

definition leave :: "frame \<Rightarrow> world" where
  "leave f = world.truncate f"

text \<open>Truthiness of a \<open>number | undefined\<close>: \<open>undefined\<close> and \<open>0\<close> are falsy.\<close>

definition truthy :: "int option \<Rightarrow> bool" where
  "truthy t = (case t of None \<Rightarrow> False | Some n \<Rightarrow> n \<noteq> 0)"

definition andThen ::
  "completion \<times> frame \<Rightarrow> (frame \<Rightarrow> completion \<times> frame) \<Rightarrow> completion \<times> frame" where
  "andThen r k = (case fst r of Done \<Rightarrow> k (snd r) | _ \<Rightarrow> r)"

text \<open>
  Modelled from the spec: \<open>timeoutAfter\<close> of \<open>utils/Utils\<close>, which is not among the
  sources: the submission is a bounded wait, and when the wait elapses before the network
  acknowledges, the result is a rejection with the timeout error.
\<close>

definition timeoutAfter :: "'a awaited \<Rightarrow> nat \<Rightarrow> nat \<Rightarrow> string \<Rightarrow> 'a awaited" where
  "timeoutAfter p settles_after ms timeoutMsg =
     (case p of
        Never \<Rightarrow> Rejects (Error timeoutMsg)
      | _ \<Rightarrow> if settles_after \<le> ms then p else Rejects (Error timeoutMsg))"

definition checkBalance :: "env \<Rightarrow> frame \<Rightarrow> completion \<times> frame" where
  "checkBalance e f =
     (case getBalance e of
        Never \<Rightarrow> (Stuck, f)
      | Rejects err \<Rightarrow> (Raised err, f)
      | Resolves balance \<Rightarrow>
          if balance < MIN_BALANCE_ETH
          then (Raised (Error ''xDAI balance too low!''), f\<lparr>trace := trace f @ [BalanceEmpty]\<rparr>)
          else (Done, f))"

definition maybeUpdateNonce :: "env \<Rightarrow> frame \<Rightarrow> completion \<times> frame" where
  "maybeUpdateNonce e f =
     (if round_double (now_stale_check e - lastTransaction f) > NONCE_STALE_AFTER_MS
      then (case getNonce e of
              Never \<Rightarrow> (Stuck, f)
            | Rejects err \<Rightarrow> (Raised err, f)
            | Resolves n \<Rightarrow> (Done, f\<lparr>nonce := n\<rparr>))
      else (Done, f))"

definition openConfirmationWindow :: "env \<Rightarrow> frame \<Rightarrow> completion \<times> frame" where
  "openConfirmationWindow e f =
     (case openConfirmationWindowForTransaction e of
        Never \<Rightarrow> (Stuck, f)
      | Rejects err \<Rightarrow> (Raised err, f)
      | Resolves _ \<Rightarrow> (Done, f))"

text \<open>
  From reading the clock for \<open>time_called\<close> to the call of \<open>onTransactionResponse\<close>.
  \<open>populateTransaction e\<close> is the outcome of populating the contract method that the
  request's type names with the request's arguments.
\<close>

definition submit :: "queued_tx_request \<Rightarrow> env \<Rightarrow> frame \<Rightarrow> completion \<times> frame" where
  "submit txRequest e f0 =
     (let f = f0\<lparr>time_called := Some (now_called e)\<rparr> in
      case populateTransaction e of
        Never \<Rightarrow> (Stuck, f)
      | Rejects err \<Rightarrow> (Raised err, f)
      | Resolves (to, data) \<Rightarrow>
          (let f1 = f\<lparr>trace := trace f @
                 [ForwardOrThrow to data
                    (AList.update ''nonce'' (Num (nonce f)) (overrides txRequest))]\<rparr>
           in case timeoutAfter (forwardOrThrow e) (forward_settles_after e) TX_SUBMIT_TIMEOUT
                     (''tx request '' @ actionId txRequest @ '' failed to submit: timed out}'') of
                Never \<Rightarrow> (Stuck, f1)
              | Rejects err \<Rightarrow> (Raised err, f1)
              | Resolves response \<Rightarrow>
                  (Done,
                   f1\<lparr>time_submitted := Some (now_submitted e),
                      tx_hash := Some (hash response),
                      nonce := round_double (nonce f1 + 1),
                      lastTransaction := now_submitted e,
                      trace := trace f1 @ [Call (onTransactionResponse txRequest) (Response response)]\<rparr>)))"

text \<open>From \<open>waitForTransaction\<close> to the end of the try block.\<close>

definition awaitReceipt :: "queued_tx_request \<Rightarrow> env \<Rightarrow> frame \<Rightarrow> completion \<times> frame" where
  "awaitReceipt txRequest e f =
     (case waitForTransaction e of
        Never \<Rightarrow> (Stuck, f)
      | Rejects err \<Rightarrow> (Raised err, f)
      | Resolves receipt \<Rightarrow>
          (let f1 = f\<lparr>time_confirmed := Some (now_confirmed e),
                      trace := trace f @ [Call (onTransactionReceipt txRequest) (Receipt receipt)]\<rparr>
           in (Done,
               if status receipt \<noteq> Some 1
               then f1\<lparr>time_errored := time_confirmed f1,
                       error := Some (Error ''transaction reverted'')\<rparr>
               else f1)))"

definition try_block :: "queued_tx_request \<Rightarrow> env \<Rightarrow> frame \<Rightarrow> completion \<times> frame" where
  "try_block txRequest e f =
     andThen (andThen (andThen (andThen (checkBalance e f)
       (maybeUpdateNonce e))
       (openConfirmationWindow e))
       (submit txRequest e))
       (awaitReceipt txRequest e)"

definition catch_block :: "queued_tx_request \<Rightarrow> env \<Rightarrow> js_error \<Rightarrow> frame \<Rightarrow> frame" where
  "catch_block txRequest e err f =
     (let f1 = f\<lparr>trace := trace f @ [ConsoleError err],
                 time_errored := Some (now_errored e),
                 error := Some err\<rparr>
      in if \<not> truthy (time_submitted f1)
         then f1\<lparr>trace := trace f1 @ [Call (onSubmissionError txRequest) (Failure err)]\<rparr>
         else f1\<lparr>trace := trace f1 @ [Call (onReceiptError txRequest) (Failure err)]\<rparr>)"

text \<open>
  The instrumentation record. \<open>String.fromCharCode\<close> keeps each code modulo \<open>2^16\<close>; the
  parsed error is kept as the list of these code units.
\<close>

definition build_log_event :: "queued_tx_request \<Rightarrow> env \<Rightarrow> frame \<Rightarrow> log_event" where
  "build_log_event txRequest e f =
     (let submitted_both = truthy (time_called f) \<and> truthy (time_submitted f);
          errored = (error f \<noteq> None \<and> truthy (time_errored f))
      in \<lparr>log_tx_type = type txRequest,
          log_time_exec_called = now_exec_called e,
          log_tx_hash = tx_hash f,
          snark_logs = map_option stringified (snarkLogs txRequest),
          snark_local_verified = map_option proofVerified (snarkLogs txRequest),
          wait_submit =
            (case (time_called f, time_submitted f) of
               (Some c, Some s) \<Rightarrow> if submitted_both then Some (round_double (s - c)) else None
             | _ \<Rightarrow> None),
          wait_confirm =
            (case (time_called f, time_confirmed f) of
               (Some c, Some t) \<Rightarrow>
                 if submitted_both \<and> t \<noteq> 0 then Some (round_double (t - c)) else None
             | _ \<Rightarrow> None),
          log_error =
            (case error f of
               Some err \<Rightarrow>
                 if errored then Some (if message err \<noteq> [] then message err else json err)
                 else None
             | None \<Rightarrow> None),
          wait_error =
            (case time_errored f of
               Some t \<Rightarrow> if errored then Some (round_double (t - now_exec_called e)) else None
             | None \<Rightarrow> None),
          parsed_error =
            (case error f of
               Some err \<Rightarrow>
                 if errored then map_option (map (\<lambda>c. c mod 65536)) (body err) else None
             | None \<Rightarrow> None),
          rpc_endpoint = getRpcEndpoint e,
          user_address = getAddress e\<rparr>)"

text \<open>
  \<open>execute\<close>. When the try block waits forever, nothing after it runs. Otherwise the
  catch block runs on an exception, the record is assembled, and it is handed to the
  event logger unless local storage holds \<open>true\<close> under the account's opt-out key; an
  exception of the logger leaves \<open>execute\<close>.
\<close>

definition execute :: "queued_tx_request \<Rightarrow> env \<Rightarrow> world \<Rightarrow> completion \<times> world" where
  "execute txRequest e w =
     (let r = try_block txRequest e (enter w) in
      case fst r of
        Stuck \<Rightarrow> (Stuck, leave (snd r))
      | c \<Rightarrow>
          (let f = (case c of Raised err \<Rightarrow> catch_block txRequest e err (snd r) | _ \<Rightarrow> snd r);
               ev = build_log_event txRequest e f
           in if localStorage e (''optout-metrics-'' @ user_address ev) \<noteq> Some ''true''
              then (case logEvent e of None \<Rightarrow> Done | Some err \<Rightarrow> Raised err,
                    leave (f\<lparr>trace := trace f @ [LogEvent ev]\<rparr>))
              else (Done, leave f)))"

subsection \<open>The queue\<close>

text \<open>
  \<open>FastQueue(callbackify(this.execute), 1)\<close>: one worker, which takes the request at the
  head of the queue, runs \<open>execute\<close> on it, and only when that call has ended takes the
  next one. A rejection of \<open>execute\<close> reaches \<open>noop\<close>, which prints it. A call that never
  ends keeps the worker for ever.
\<close>

definition noop :: "js_error option \<Rightarrow> world \<Rightarrow> world" where
  "noop err w = (case err of None \<Rightarrow> w | Some e \<Rightarrow> w\<lparr>trace := trace w @ [HowDidWeGetHere e]\<rparr>)"

definition worker :: "env \<Rightarrow> world \<Rightarrow> world" where
  "worker e w =
     (if hung w then w
      else case txRequests w of
             [] \<Rightarrow> w
           | txRequest # rest \<Rightarrow>
               (let r = execute txRequest e (w\<lparr>txRequests := rest\<rparr>) in
                case fst r of
                  Done \<Rightarrow> noop None (snd r)
                | Raised err \<Rightarrow> noop (Some err) (snd r)
                | Stuck \<Rightarrow> (snd r)\<lparr>hung := True\<rparr>))"

text \<open>
  What happens to an executor: a caller makes a request, or the worker processes the
  request at the head of the queue against the answers of the collaborators.
\<close>

datatype action =
    MakeRequest string string string "jsval list" "transaction_request option"
      "snark_log_data option"
  | Work env

fun act :: "action \<Rightarrow> world \<Rightarrow> world" where
  "act (MakeRequest ty aid con arguments ovr logs) w =
     snd (makeRequest ty aid con arguments ovr logs w)"
| "act (Work e) w = worker e w"

fun run :: "action list \<Rightarrow> world \<Rightarrow> world" where
  "run [] w = w"
| "run (a # rest) w = run rest (act a w)"

section \<open>Observations on a trace\<close>

text \<open>The callback invocations of a trace, in order.\<close>

fun calls :: "event list \<Rightarrow> (callback \<times> payload) list" where
  "calls [] = []"
| "calls (Call cb v # t) = (cb, v) # calls t"
| "calls (_ # t) = calls t"

text \<open>The records handed to the event logger, in order.\<close>

fun logged :: "event list \<Rightarrow> log_event list" where
  "logged [] = []"
| "logged (LogEvent ev # t) = ev # logged t"
| "logged (_ # t) = logged t"

text \<open>The number of low-balance notifications.\<close>

definition notifications :: "event list \<Rightarrow> nat" where
  "notifications t = count_list t BalanceEmpty"

text \<open>
  The nonces of the transactions the network acknowledged, in order: a call of
  \<open>forwardOrThrow\<close> is acknowledged when the next effect is the request's
  \<open>onTransactionResponse\<close>, which \<open>execute\<close> calls with the response and nothing else.
\<close>

fun nonce_of :: "transaction_request \<Rightarrow> int option" where
  "nonce_of options = (case map_of options ''nonce'' of Some (Num n) \<Rightarrow> Some n | _ \<Rightarrow> None)"

fun submitted_nonces :: "event list \<Rightarrow> int list" where
  "submitted_nonces (ForwardOrThrow to data options # Call cb (Response r) # t) =
     (case nonce_of options of
        Some n \<Rightarrow> n # submitted_nonces t
      | None \<Rightarrow> submitted_nonces t)"
| "submitted_nonces (_ # t) = submitted_nonces t"
| "submitted_nonces [] = []"

text \<open>The calls of \<open>forwardOrThrow\<close> and the responses delivered to callers, in order.\<close>

fun forwards :: "event list \<Rightarrow> (string \<times> string \<times> transaction_request) list" where
  "forwards [] = []"
| "forwards (ForwardOrThrow to data options # t) = (to, data, options) # forwards t"
| "forwards (_ # t) = forwards t"

fun responses :: "event list \<Rightarrow> tx_response list" where
  "responses [] = []"
| "responses (Call cb (Response r) # t) = r # responses t"
| "responses (_ # t) = responses t"

fun is_forward :: "event \<Rightarrow> bool" where
  "is_forward (ForwardOrThrow to data options) = True"
| "is_forward _ = False"

text \<open>
  A promise settles once: of the calls of its resolve and reject functions the first
  decides, later ones are ignored.
\<close>

datatype promise_state = Pending | Fulfilled payload | Rejected payload

fun number :: "promise \<Rightarrow> nat" where
  "number (SubmittedPromise k) = k"
| "number (ReceiptPromise k) = k"

fun promise_of :: "callback \<Rightarrow> promise" where
  "promise_of (Resolve p) = p"
| "promise_of (Reject p) = p"

fun settle :: "callback \<Rightarrow> payload \<Rightarrow> promise_state" where
  "settle (Resolve p) v = Fulfilled v"
| "settle (Reject p) v = Rejected v"

definition state_of :: "promise \<Rightarrow> event list \<Rightarrow> promise_state" where
  "state_of p t =
     (case filter (\<lambda>c. promise_of (fst c) = p) (calls t) of
        [] \<Rightarrow> Pending
      | c # _ \<Rightarrow> settle (fst c) (snd c))"

text \<open>
  What a list of callback invocations delivered: the first response, receipt and error
  among them; and the invocations a step added to the trace.
\<close>

fun delivered_response :: "(callback \<times> payload) list \<Rightarrow> tx_response option" where
  "delivered_response [] = None"
| "delivered_response ((cb, Response r) # cs) = Some r"
| "delivered_response (_ # cs) = delivered_response cs"

fun delivered_receipt :: "(callback \<times> payload) list \<Rightarrow> tx_receipt option" where
  "delivered_receipt [] = None"
| "delivered_receipt ((cb, Receipt r) # cs) = Some r"
| "delivered_receipt (_ # cs) = delivered_receipt cs"

fun delivered_failure :: "(callback \<times> payload) list \<Rightarrow> js_error option" where
  "delivered_failure [] = None"
| "delivered_failure ((cb, Failure err) # cs) = Some err"
| "delivered_failure (_ # cs) = delivered_failure cs"

definition new_calls :: "world \<Rightarrow> world \<Rightarrow> (callback \<times> payload) list" where
  "new_calls w w' = drop (length (calls (trace w))) (calls (trace w'))"

text \<open>
  The instrumentation record, told from what the collaborators answered and what the
  request's callbacks were given, not from the local variables of \<open>execute\<close>: the
  request's type and diagnostic payload, the time processing began, the hash of the
  response if one was delivered, the waits from the call to the submission and to the
  receipt, the error with its wait (the error delivered to a callback, or the revert
  found in a delivered receipt), the endpoint and the address. A clock reading of 0 is
  falsy and hides the wait or the error that depends on it.
\<close>

definition record_of_outcome ::
  "queued_tx_request \<Rightarrow> env \<Rightarrow> (callback \<times> payload) list \<Rightarrow> log_event" where
  "record_of_outcome txRequest e cs =
     \<lparr>log_tx_type = type txRequest,
      log_time_exec_called = now_exec_called e,
      log_tx_hash = map_option hash (delivered_response cs),
      snark_logs = map_option stringified (snarkLogs txRequest),
      snark_local_verified = map_option proofVerified (snarkLogs txRequest),
      wait_submit =
        (if delivered_response cs \<noteq> None \<and> now_called e \<noteq> 0 \<and> now_submitted e \<noteq> 0
         then Some (round_double (now_submitted e - now_called e)) else None),
      wait_confirm =
        (if delivered_response cs \<noteq> None \<and> delivered_receipt cs \<noteq> None \<and>
            now_called e \<noteq> 0 \<and> now_submitted e \<noteq> 0 \<and> now_confirmed e \<noteq> 0
         then Some (round_double (now_confirmed e - now_called e)) else None),
      log_error =
        (case delivered_failure cs of
           Some err \<Rightarrow>
             if now_errored e \<noteq> 0
             then Some (if message err \<noteq> [] then message err else json err) else None
         | None \<Rightarrow>
             (case delivered_receipt cs of
                Some receipt \<Rightarrow>
                  if status receipt \<noteq> Some 1 \<and> now_confirmed e \<noteq> 0
                  then Some ''transaction reverted'' else None
              | None \<Rightarrow> None)),
      wait_error =
        (case delivered_failure cs of
           Some err \<Rightarrow>
             if now_errored e \<noteq> 0
             then Some (round_double (now_errored e - now_exec_called e)) else None
         | None \<Rightarrow>
             (case delivered_receipt cs of
                Some receipt \<Rightarrow>
                  if status receipt \<noteq> Some 1 \<and> now_confirmed e \<noteq> 0
                  then Some (round_double (now_confirmed e - now_exec_called e)) else None
              | None \<Rightarrow> None)),
      parsed_error =
        (case delivered_failure cs of
           Some err \<Rightarrow>
             if now_errored e \<noteq> 0 then map_option (map (\<lambda>c. c mod 65536)) (body err) else None
         | None \<Rightarrow> None),
      rpc_endpoint = getRpcEndpoint e,
      user_address = getAddress e\<rparr>"

section \<open>Conditions on the collaborators and on runs\<close>

text \<open>Every promise \<open>execute\<close> awaits without a timeout settles.\<close>

definition settles :: "env \<Rightarrow> bool" where
  "settles e =
     (getBalance e \<noteq> Never \<and> getNonce e \<noteq> Never \<and>
      openConfirmationWindowForTransaction e \<noteq> Never \<and>
      populateTransaction e \<noteq> Never \<and> waitForTransaction e \<noteq> Never)"

text \<open>
  The callbacks of the request that the \<open>k\<close>-th call of \<open>makeRequest\<close> queues, and the
  state of an executor that has taken \<open>d\<close> requests from its queue: callbacks were called
  in the order of the requests, for requests taken only; every request taken and finished
  had a callback of its submitted promise called; the queue holds the requests from
  \<open>d\<close> on.
\<close>

definition numbered :: "nat \<Rightarrow> queued_tx_request \<Rightarrow> bool" where
  "numbered k r =
     (onSubmissionError r = Reject (SubmittedPromise k) \<and>
      onReceiptError r = Reject (ReceiptPromise k) \<and>
      onTransactionResponse r = Resolve (SubmittedPromise k) \<and>
      onTransactionReceipt r = Resolve (ReceiptPromise k))"

definition in_order :: "nat \<Rightarrow> world \<Rightarrow> bool" where
  "in_order d w =
     (sorted (map (\<lambda>c. number (promise_of (fst c))) (calls (trace w))) \<and>
      (\<forall>c \<in> set (calls (trace w)). number (promise_of (fst c)) < d) \<and>
      (\<forall>k. (if hung w then Suc k else k) < d \<longrightarrow>
           (\<exists>c \<in> set (calls (trace w)). promise_of (fst c) = SubmittedPromise k)) \<and>
      d \<le> made w \<and>
      list_all2 numbered [d..<made w] (txRequests w))"

text \<open>How far the collaborators let a request get: past the balance check, past the
  staleness check, past the confirmation window, past the population of the call.\<close>

definition balance_passes :: "env \<Rightarrow> bool" where
  "balance_passes e = (\<exists>b. getBalance e = Resolves b \<and> \<not> b < MIN_BALANCE_ETH)"

definition nonce_ready :: "env \<Rightarrow> world \<Rightarrow> bool" where
  "nonce_ready e w =
     (balance_passes e \<and>
      (now_stale_check e - lastTransaction w > NONCE_STALE_AFTER_MS \<longrightarrow>
         (\<exists>n. getNonce e = Resolves n)))"

definition gate_passed :: "env \<Rightarrow> world \<Rightarrow> bool" where
  "gate_passed e w = (nonce_ready e w \<and> openConfirmationWindowForTransaction e = Resolves ())"

definition populated :: "env \<Rightarrow> world \<Rightarrow> bool" where
  "populated e w = (gate_passed e w \<and> (\<exists>to data. populateTransaction e = Resolves (to, data)))"

text \<open>
  The value with which a step of the worker overwrites the nonce, if it does: there is a
  request to take, the balance check passes, the nonce is stale and the network answers.
\<close>

definition refresh :: "env \<Rightarrow> world \<Rightarrow> int option" where
  "refresh e w =
     (if hung w \<or> txRequests w = [] then None
      else case getBalance e of
             Resolves b \<Rightarrow>
               if \<not> b < MIN_BALANCE_ETH \<and>
                  now_stale_check e - lastTransaction w > NONCE_STALE_AFTER_MS
               then (case getNonce e of Resolves n \<Rightarrow> Some n | _ \<Rightarrow> None)
               else None
           | _ \<Rightarrow> None)"

text \<open>
  Along a run, the nonce at each step of the worker and every answer that overwrites it
  are safe integers, and every refresh replaces a local nonce \<open>m\<close> by an answer \<open>n\<close>
  with \<open>ok m n\<close>.
\<close>

fun every_refresh :: "(int \<Rightarrow> int \<Rightarrow> bool) \<Rightarrow> action list \<Rightarrow> world \<Rightarrow> bool" where
  "every_refresh ok [] w = True"
| "every_refresh ok (Work e # rest) w =
     (safe_integer (nonce w) \<and>
      (case refresh e w of None \<Rightarrow> True | Some n \<Rightarrow> safe_integer n \<and> ok (nonce w) n) \<and>
      every_refresh ok rest (worker e w))"
| "every_refresh ok (a # rest) w = every_refresh ok rest (act a w)"

text \<open>
  The acknowledged nonces so far increase strictly and lie below the executor's nonce,
  and no call of \<open>forwardOrThrow\<close> is still open; the acknowledged nonces so far are
  \<open>n0\<close>, \<open>n0 + 1\<close>, ... without a gap and the executor's nonce is the next one.
\<close>

definition increasing :: "world \<Rightarrow> bool" where
  "increasing w =
     (sorted_wrt (<) (submitted_nonces (trace w)) \<and>
      (\<forall>n \<in> set (submitted_nonces (trace w)). n < nonce w) \<and>
      (trace w = [] \<or> \<not> is_forward (last (trace w))))"

definition consecutive :: "int \<Rightarrow> world \<Rightarrow> bool" where
  "consecutive n0 w =
     (submitted_nonces (trace w) =
        map (\<lambda>k. n0 + int k) [0..<length (submitted_nonces (trace w))] \<and>
      nonce w = n0 + int (length (submitted_nonces (trace w))))"

section \<open>A scenario\<close>

text \<open>
  The collaborators' answers for a request on which every step succeeds, and an executor
  constructed at time \<open>1000\<close> with nonce \<open>5\<close> on which one request was made.
\<close>

definition scenario_env :: env where
  "scenario_env =
     \<lparr>now_exec_called = 1000, getBalance = Resolves 1, now_stale_check = 1001,
      getNonce = Resolves 9, openConfirmationWindowForTransaction = Resolves (),
      now_called = 1002, populateTransaction = Resolves (''0xc0'', ''0xda''),
      forwardOrThrow = Resolves \<lparr>hash = ''0xh1'', sender = ''0xA'', confirmations = 0\<rparr>,
      forward_settles_after = 150, now_submitted = 1100,
      waitForTransaction =
        Resolves \<lparr>transactionHash = ''0xh1'', blockNumber = 7, status = Some 1\<rparr>,
      now_confirmed = 1200, now_errored = 1300, getRpcEndpoint = ''rpc'', getAddress = ''0xA'',
      localStorage = (\<lambda>k. None), logEvent = None\<rparr>"

definition scenario_request :: action where
  "scenario_request = MakeRequest ''MOVE'' ''a1'' ''core'' [] None None"

definition scenario_start :: world where
  "scenario_start = run [scenario_request] (TxExecutor 5 1000)"

text \<open>The request that \<open>makeRequest\<close> queues in the scenario.\<close>

definition scenario_queued :: queued_tx_request where
  "scenario_queued =
     \<lparr>onSubmissionError = Reject (SubmittedPromise 0),
      onReceiptError = Reject (ReceiptPromise 0),
      onTransactionResponse = Resolve (SubmittedPromise 0),
      onTransactionReceipt = Resolve (ReceiptPromise 0),
      type = ''MOVE'', actionId = ''a1'', contract = ''core'', args = [],
      overrides = [(''gasPrice'', Num 1000000000), (''gasLimit'', Num 2000000)],
      snarkLogs = None\<rparr>"

section \<open>Rounding\<close>

text \<open>
  Rounding leaves safe integers alone, loses the increment at \<open>2^53\<close>, and keeps sign
  and size, so that no comparison with a small constant changes.
\<close>

lemma round_double_exact: "\<bar>x\<bar> \<le> 2 ^ 53 \<Longrightarrow> round_double x = x"
  by (simp add: round_double_def)

lemma round_double_increment: "safe_integer n \<Longrightarrow> round_double (n + 1) = n + 1"
  unfolding safe_integer_def by (intro round_double_exact) arith

lemma round_double_at_limit: "round_double (2 ^ 53 + 1) = 2 ^ 53"
  by code_simp

lemma round_double_magnitude:
  assumes "2 ^ 53 < \<bar>x\<bar>"
  shows "2 ^ 52 \<le> \<bar>round_double x\<bar> \<and> sgn (round_double x) = sgn x"
proof -
  define a where "a = \<bar>x\<bar>"
  define u :: int where "u = 2 ^ nat (bitlen a - 53)"
  define m where "m = (if 2 * (a mod u) < u \<or> (2 * (a mod u) = u \<and> even (a div u))
                       then a div u else a div u + 1)"
  have a: "2 ^ 53 < a" using assms by (simp add: a_def)
  then have pos: "0 < a" by simp
  have u: "1 \<le> u" by (simp add: u_def)
  from bitlen_bounds [OF pos]
  have lo: "2 ^ nat (bitlen a - 1) \<le> a" and hi: "a < 2 ^ nat (bitlen a)" by simp_all
  have "(2::int) ^ 53 < 2 ^ nat (bitlen a)" using a hi by linarith
  then have "53 < nat (bitlen a)" by (rule power_less_imp_less_exp [rotated]) simp
  then have "nat (bitlen a - 1) = 52 + nat (bitlen a - 53)" by linarith
  then have "2 ^ 52 * u \<le> a" using lo by (simp add: u_def power_add)
  then have "(2 ^ 52 * u) div u \<le> a div u" using u by (intro zdiv_mono1) simp_all
  then have q: "2 ^ 52 \<le> a div u" using u by simp
  then have m: "2 ^ 52 \<le> m" by (simp add: m_def)
  have "2 ^ 52 * 1 \<le> m * u" using m u by (intro mult_mono) simp_all
  then have mu: "2 ^ 52 \<le> m * u" by simp
  have "round_double x = sgn x * (m * u)"
    using assms by (simp add: round_double_def Let_def a_def u_def m_def)
  moreover have "x \<noteq> 0" using assms by auto
  moreover have "0 < m" and "0 < u" using m u by simp_all
  ultimately show ?thesis using mu
    by (cases "0 < x") (simp_all add: sgn_if abs_if)
qed

lemma round_double_compare:
  assumes "\<bar>c\<bar> < 2 ^ 52"
  shows "(c < round_double x) = (c < x)"
proof (cases "\<bar>x\<bar> \<le> 2 ^ 53")
  case True
  then show ?thesis by (simp add: round_double_exact)
next
  case False
  then have big: "2 ^ 53 < \<bar>x\<bar>" by simp
  from round_double_magnitude [OF big] assms big
  show ?thesis by (cases "0 < x"; cases "0 < round_double x") (simp_all add: sgn_if abs_if split: if_splits)
qed

lemma stale_test:
  "(NONCE_STALE_AFTER_MS < round_double x) = (NONCE_STALE_AFTER_MS < x)"
  by (rule round_double_compare) (simp add: NONCE_STALE_AFTER_MS_def)

section \<open>Unfolding one call\<close>

lemma timeoutAfter_Never: "timeoutAfter Never d ms msg = Rejects (Error msg)"
  by (simp add: timeoutAfter_def)

lemma timeoutAfter_late: "\<not> d \<le> ms \<Longrightarrow> timeoutAfter p d ms msg = Rejects (Error msg)"
  by (cases p) (simp_all add: timeoutAfter_def)

lemma timeoutAfter_Resolves: "d \<le> ms \<Longrightarrow> timeoutAfter (Resolves x) d ms msg = Resolves x"
  by (simp add: timeoutAfter_def)

lemma timeoutAfter_Rejects: "d \<le> ms \<Longrightarrow> timeoutAfter (Rejects err) d ms msg = Rejects err"
  by (simp add: timeoutAfter_def)

lemmas timeoutAfter_simps =
  timeoutAfter_Never timeoutAfter_late timeoutAfter_Resolves timeoutAfter_Rejects

lemmas step_defs =
  try_block_def andThen_def checkBalance_def maybeUpdateNonce_def openConfirmationWindow_def
  submit_def awaitReceipt_def catch_block_def truthy_def timeoutAfter_simps stale_test Let_def

lemmas frame_defs = enter_def leave_def world.defs frame.defs

lemmas scenario_defs =
  scenario_env_def scenario_start_def scenario_request_def scenario_queued_def makeRequest_def
  TxExecutor_def default_overrides_def worker_def noop_def execute_def TX_SUBMIT_TIMEOUT_def
  MIN_BALANCE_ETH_def NONCE_STALE_AFTER_MS_def round_double_exact

lemma scenario_start_fields:
  "txRequests scenario_start = [scenario_queued]"
  "lastTransaction scenario_start = 1000"
  "nonce scenario_start = 5"
  "trace scenario_start = []"
  "made scenario_start = 1"
  "hung scenario_start = False"
  by (simp_all add: scenario_start_def scenario_request_def scenario_queued_def makeRequest_def
      TxExecutor_def default_overrides_def Let_def)

lemma calls_append: "calls (s @ t) = calls s @ calls t"
  by (induction s rule: calls.induct) simp_all

lemma logged_append: "logged (s @ t) = logged s @ logged t"
  by (induction s rule: logged.induct) simp_all

lemma forwards_append: "forwards (s @ t) = forwards s @ forwards t"
  by (induction s rule: forwards.induct) simp_all

lemma responses_append: "responses (s @ t) = responses s @ responses t"
  by (induction s rule: responses.induct) simp_all

lemma notifications_append: "notifications (s @ t) = notifications s + notifications t"
  by (induction s) (simp_all add: notifications_def)

lemmas observe_append =
  calls_append logged_append forwards_append responses_append notifications_append

text \<open>The paths through the try block, by the answers of the collaborators.\<close>

lemma paths [case_names balance_never balance_rejects balance_low nonce_never nonce_rejects
    popup_never popup_rejects populate_never populate_rejects forward_never forward_late
    forward_rejects wait_never wait_rejects confirmed reverted]:
  fixes e :: env and L :: int
  obtains
    "getBalance e = Never"
  | err where "getBalance e = Rejects err"
  | b where "getBalance e = Resolves b" and "b < MIN_BALANCE_ETH"
  | b where "getBalance e = Resolves b" and "\<not> b < MIN_BALANCE_ETH"
      and "now_stale_check e - L > NONCE_STALE_AFTER_MS" and "getNonce e = Never"
  | b err where "getBalance e = Resolves b" and "\<not> b < MIN_BALANCE_ETH"
      and "now_stale_check e - L > NONCE_STALE_AFTER_MS" and "getNonce e = Rejects err"
  | b n where "getBalance e = Resolves b" and "\<not> b < MIN_BALANCE_ETH"
      and "now_stale_check e - L > NONCE_STALE_AFTER_MS \<longrightarrow> getNonce e = Resolves n"
      and "openConfirmationWindowForTransaction e = Never"
  | b n err where "getBalance e = Resolves b" and "\<not> b < MIN_BALANCE_ETH"
      and "now_stale_check e - L > NONCE_STALE_AFTER_MS \<longrightarrow> getNonce e = Resolves n"
      and "openConfirmationWindowForTransaction e = Rejects err"
  | b n where "getBalance e = Resolves b" and "\<not> b < MIN_BALANCE_ETH"
      and "now_stale_check e - L > NONCE_STALE_AFTER_MS \<longrightarrow> getNonce e = Resolves n"
      and "openConfirmationWindowForTransaction e = Resolves ()"
      and "populateTransaction e = Never"
  | b n err where "getBalance e = Resolves b" and "\<not> b < MIN_BALANCE_ETH"
      and "now_stale_check e - L > NONCE_STALE_AFTER_MS \<longrightarrow> getNonce e = Resolves n"
      and "openConfirmationWindowForTransaction e = Resolves ()"
      and "populateTransaction e = Rejects err"
  | b n to data where "getBalance e = Resolves b" and "\<not> b < MIN_BALANCE_ETH"
      and "now_stale_check e - L > NONCE_STALE_AFTER_MS \<longrightarrow> getNonce e = Resolves n"
      and "openConfirmationWindowForTransaction e = Resolves ()"
      and "populateTransaction e = Resolves (to, data)"
      and "forwardOrThrow e = Never"
  | b n to data where "getBalance e = Resolves b" and "\<not> b < MIN_BALANCE_ETH"
      and "now_stale_check e - L > NONCE_STALE_AFTER_MS \<longrightarrow> getNonce e = Resolves n"
      and "openConfirmationWindowForTransaction e = Resolves ()"
      and "populateTransaction e = Resolves (to, data)"
      and "\<not> forward_settles_after e \<le> TX_SUBMIT_TIMEOUT"
  | b n to data err where "getBalance e = Resolves b" and "\<not> b < MIN_BALANCE_ETH"
      and "now_stale_check e - L > NONCE_STALE_AFTER_MS \<longrightarrow> getNonce e = Resolves n"
      and "openConfirmationWindowForTransaction e = Resolves ()"
      and "populateTransaction e = Resolves (to, data)"
      and "forwardOrThrow e = Rejects err" and "forward_settles_after e \<le> TX_SUBMIT_TIMEOUT"
  | b n to data response where "getBalance e = Resolves b" and "\<not> b < MIN_BALANCE_ETH"
      and "now_stale_check e - L > NONCE_STALE_AFTER_MS \<longrightarrow> getNonce e = Resolves n"
      and "openConfirmationWindowForTransaction e = Resolves ()"
      and "populateTransaction e = Resolves (to, data)"
      and "forwardOrThrow e = Resolves response" and "forward_settles_after e \<le> TX_SUBMIT_TIMEOUT"
      and "waitForTransaction e = Never"
  | b n to data response err where "getBalance e = Resolves b" and "\<not> b < MIN_BALANCE_ETH"
      and "now_stale_check e - L > NONCE_STALE_AFTER_MS \<longrightarrow> getNonce e = Resolves n"
      and "openConfirmationWindowForTransaction e = Resolves ()"
      and "populateTransaction e = Resolves (to, data)"
      and "forwardOrThrow e = Resolves response" and "forward_settles_after e \<le> TX_SUBMIT_TIMEOUT"
      and "waitForTransaction e = Rejects err"
  | b n to data response receipt where "getBalance e = Resolves b" and "\<not> b < MIN_BALANCE_ETH"
      and "now_stale_check e - L > NONCE_STALE_AFTER_MS \<longrightarrow> getNonce e = Resolves n"
      and "openConfirmationWindowForTransaction e = Resolves ()"
      and "populateTransaction e = Resolves (to, data)"
      and "forwardOrThrow e = Resolves response" and "forward_settles_after e \<le> TX_SUBMIT_TIMEOUT"
      and "waitForTransaction e = Resolves receipt" and "status receipt = Some 1"
  | b n to data response receipt where "getBalance e = Resolves b" and "\<not> b < MIN_BALANCE_ETH"
      and "now_stale_check e - L > NONCE_STALE_AFTER_MS \<longrightarrow> getNonce e = Resolves n"
      and "openConfirmationWindowForTransaction e = Resolves ()"
      and "populateTransaction e = Resolves (to, data)"
      and "forwardOrThrow e = Resolves response" and "forward_settles_after e \<le> TX_SUBMIT_TIMEOUT"
      and "waitForTransaction e = Resolves receipt" and "status receipt \<noteq> Some 1"
proof (cases "getBalance e")
  case Never
  then show ?thesis by (rule that(1))
next
  case (Rejects err)
  then show ?thesis by (rule that(2))
next
  case balance: (Resolves b)
  show ?thesis
  proof (cases "b < MIN_BALANCE_ETH")
    case True
    with balance show ?thesis by (rule that(3))
  next
    case enough: False
    have "(\<exists>n. now_stale_check e - L > NONCE_STALE_AFTER_MS \<longrightarrow> getNonce e = Resolves n)
        \<or> (now_stale_check e - L > NONCE_STALE_AFTER_MS \<and> getNonce e = Never)
        \<or> (\<exists>err. now_stale_check e - L > NONCE_STALE_AFTER_MS \<and> getNonce e = Rejects err)"
      by (cases "getNonce e") auto
    then consider
        (ready) n where "now_stale_check e - L > NONCE_STALE_AFTER_MS \<longrightarrow> getNonce e = Resolves n"
      | (never) "now_stale_check e - L > NONCE_STALE_AFTER_MS" "getNonce e = Never"
      | (rejects) err where "now_stale_check e - L > NONCE_STALE_AFTER_MS" "getNonce e = Rejects err"
      by blast
    then show ?thesis
    proof cases
      case never
      with balance enough show ?thesis by (intro that(4))
    next
      case rejects
      with balance enough show ?thesis by (intro that(5))
    next
      case ready
      note pre = balance enough ready
      show ?thesis
      proof (cases "openConfirmationWindowForTransaction e")
        case Never
        with pre show ?thesis by (intro that(6))
      next
        case (Rejects err)
        with pre show ?thesis by (intro that(7))
      next
        case (Resolves u)
        then have popup: "openConfirmationWindowForTransaction e = Resolves ()" by simp
        show ?thesis
        proof (cases "populateTransaction e")
          case Never
          with pre popup show ?thesis by (intro that(8))
        next
          case (Rejects err)
          with pre popup show ?thesis by (intro that(9))
        next
          case (Resolves td)
          then have populate: "populateTransaction e = Resolves (fst td, snd td)" by simp
          show ?thesis
          proof (cases "forward_settles_after e \<le> TX_SUBMIT_TIMEOUT")
            case False
            with pre popup populate show ?thesis by (intro that(11))
          next
            case in_time: True
            show ?thesis
            proof (cases "forwardOrThrow e")
              case Never
              with pre popup populate show ?thesis by (intro that(10))
            next
              case (Rejects err)
              with pre popup populate in_time show ?thesis by (intro that(12))
            next
              case forward: (Resolves response)
              show ?thesis
              proof (cases "waitForTransaction e")
                case Never
                with pre popup populate in_time forward show ?thesis by (intro that(13))
              next
                case (Rejects err)
                with pre popup populate in_time forward show ?thesis by (intro that(14))
              next
                case (Resolves receipt)
                with pre popup populate in_time forward show ?thesis
                  by (cases "status receipt = Some 1") (blast intro: that(15) that(16))+
              qed
            qed
          qed
        qed
      qed
    qed
  qed
qed

text \<open>\<open>execute\<close> neither reads nor writes the queue.\<close>

lemma checkBalance_requeue:
  "checkBalance e (f\<lparr>txRequests := q\<rparr>) =
     (fst (checkBalance e f), (snd (checkBalance e f))\<lparr>txRequests := q\<rparr>)"
  by (simp add: checkBalance_def split: awaited.splits)

lemma maybeUpdateNonce_requeue:
  "maybeUpdateNonce e (f\<lparr>txRequests := q\<rparr>) =
     (fst (maybeUpdateNonce e f), (snd (maybeUpdateNonce e f))\<lparr>txRequests := q\<rparr>)"
  by (simp add: maybeUpdateNonce_def split: awaited.splits)

lemma openConfirmationWindow_requeue:
  "openConfirmationWindow e (f\<lparr>txRequests := q\<rparr>) =
     (fst (openConfirmationWindow e f), (snd (openConfirmationWindow e f))\<lparr>txRequests := q\<rparr>)"
  by (simp add: openConfirmationWindow_def split: awaited.splits)

lemma submit_requeue:
  "submit r e (f\<lparr>txRequests := q\<rparr>) =
     (fst (submit r e f), (snd (submit r e f))\<lparr>txRequests := q\<rparr>)"
  by (simp add: submit_def Let_def split: awaited.splits prod.splits)

lemma awaitReceipt_requeue:
  "awaitReceipt r e (f\<lparr>txRequests := q\<rparr>) =
     (fst (awaitReceipt r e f), (snd (awaitReceipt r e f))\<lparr>txRequests := q\<rparr>)"
  by (simp add: awaitReceipt_def Let_def split: awaited.splits)

lemma andThen_requeue:
  assumes "r' = (fst r, (snd r)\<lparr>txRequests := q\<rparr>)"
    and "\<And>f. k (f\<lparr>txRequests := q\<rparr>) = (fst (k f), (snd (k f))\<lparr>txRequests := q\<rparr>)"
  shows "andThen r' k = (fst (andThen r k), (snd (andThen r k))\<lparr>txRequests := q\<rparr>)"
  using assms by (simp add: andThen_def split: completion.splits)

lemma try_block_requeue:
  "try_block r e (f\<lparr>txRequests := q\<rparr>) =
     (fst (try_block r e f), (snd (try_block r e f))\<lparr>txRequests := q\<rparr>)"
  unfolding try_block_def
  by (intro andThen_requeue checkBalance_requeue maybeUpdateNonce_requeue
      openConfirmationWindow_requeue submit_requeue awaitReceipt_requeue)

lemma catch_block_requeue:
  "catch_block r e err (f\<lparr>txRequests := q\<rparr>) = (catch_block r e err f)\<lparr>txRequests := q\<rparr>"
  by (simp add: catch_block_def Let_def)

lemma build_log_event_requeue:
  "build_log_event r e (f\<lparr>txRequests := q\<rparr>) = build_log_event r e f"
  by (simp add: build_log_event_def)

lemma enter_requeue: "enter (w\<lparr>txRequests := q\<rparr>) = (enter w)\<lparr>txRequests := q\<rparr>"
  by (simp add: frame_defs)

lemma leave_requeue: "leave (f\<lparr>txRequests := q\<rparr>) = (leave f)\<lparr>txRequests := q\<rparr>"
  by (simp add: frame_defs)

lemma leave_trace_requeue:
  "leave (f\<lparr>txRequests := q, trace := t\<rparr>) = (leave (f\<lparr>trace := t\<rparr>))\<lparr>txRequests := q\<rparr>"
  by (simp add: frame_defs)

lemma execute_requeue:
  "execute r e (w\<lparr>txRequests := q\<rparr>) =
     (fst (execute r e w), (snd (execute r e w))\<lparr>txRequests := q\<rparr>)"
  by (simp add: execute_def Let_def enter_requeue try_block_requeue leave_requeue
      leave_trace_requeue catch_block_requeue build_log_event_requeue
      split: completion.splits option.splits)

lemma execute_queue:
  "txRequests (snd (execute r e w)) = txRequests w"
  "made (snd (execute r e w)) = made w"
  "hung (snd (execute r e w)) = hung w"
  by (cases "now_stale_check e - lastTransaction w > NONCE_STALE_AFTER_MS";
      cases rule: paths [where e = e and L = "lastTransaction w"];
      simp add: execute_def step_defs frame_defs)+

lemma worker_step:
  assumes "\<not> hung w" and "txRequests w = r # rest"
  shows "trace (worker e w) =
           trace (snd (execute r e w)) @
           (case fst (execute r e w) of Raised err \<Rightarrow> [HowDidWeGetHere err] | _ \<Rightarrow> [])"
    and "nonce (worker e w) = nonce (snd (execute r e w))"
    and "lastTransaction (worker e w) = lastTransaction (snd (execute r e w))"
    and "txRequests (worker e w) = rest"
    and "made (worker e w) = made w"
    and "hung (worker e w) = (fst (execute r e w) = Stuck)"
  using assms execute_queue [of r e w]
  by (simp_all add: worker_def noop_def execute_requeue Let_def split: completion.splits)

text \<open>What \<open>execute\<close> reads of the environment, and what it always does.\<close>

lemma try_block_env:
  assumes "getBalance e' = getBalance e" and "now_stale_check e' = now_stale_check e"
    and "getNonce e' = getNonce e"
    and "openConfirmationWindowForTransaction e' = openConfirmationWindowForTransaction e"
    and "now_called e' = now_called e" and "populateTransaction e' = populateTransaction e"
    and "forwardOrThrow e' = forwardOrThrow e"
    and "forward_settles_after e' = forward_settles_after e"
    and "now_submitted e' = now_submitted e" and "waitForTransaction e' = waitForTransaction e"
    and "now_confirmed e' = now_confirmed e"
  shows "try_block r e' f = try_block r e f"
  unfolding try_block_def checkBalance_def maybeUpdateNonce_def openConfirmationWindow_def
    submit_def awaitReceipt_def assms ..

lemma try_block_sink: "try_block r (e\<lparr>logEvent := sink\<rparr>) f = try_block r e f"
  by (rule try_block_env) simp_all

lemma try_block_storage: "try_block r (e\<lparr>localStorage := ls\<rparr>) f = try_block r e f"
  by (rule try_block_env) simp_all

lemma catch_block_sink: "catch_block r (e\<lparr>logEvent := sink\<rparr>) err f = catch_block r e err f"
  by (simp add: catch_block_def)

lemma build_log_event_address: "user_address (build_log_event r e f) = getAddress e"
  by (simp add: build_log_event_def Let_def)

lemma execute_settles:
  assumes "settles e"
  shows "fst (execute r e w) \<noteq> Stuck"
  using assms
  by (cases "now_stale_check e - lastTransaction w > NONCE_STALE_AFTER_MS";
      cases rule: paths [where e = e and L = "lastTransaction w"];
      simp add: execute_def step_defs frame_defs settles_def split: option.splits)

lemma execute_logged:
  assumes "fst (execute r e w) \<noteq> Stuck"
  shows "map user_address (logged (trace (snd (execute r e w)))) =
           map user_address (logged (trace w)) @
           (if localStorage e (''optout-metrics-'' @ getAddress e) = Some ''true'' then []
            else [getAddress e])"
  using assms
  by (cases "now_stale_check e - lastTransaction w > NONCE_STALE_AFTER_MS";
      cases rule: paths [where e = e and L = "lastTransaction w"];
      simp add: execute_def step_defs frame_defs observe_append build_log_event_address)

lemma execute_raises:
  "fst (execute r e w) = Stuck \<or> fst (execute r e w) = Done
   \<or> (\<exists>err. logEvent e = Some err \<and> fst (execute r e w) = Raised err)"
  by (cases "now_stale_check e - lastTransaction w > NONCE_STALE_AFTER_MS";
      cases rule: paths [where e = e and L = "lastTransaction w"];
      cases "logEvent e";
      simp add: execute_def step_defs frame_defs)

lemma execute_sink:
  "calls (trace (snd (execute r (e\<lparr>logEvent := sink\<rparr>) w))) = calls (trace (snd (execute r e w)))"
  "nonce (snd (execute r (e\<lparr>logEvent := sink\<rparr>) w)) = nonce (snd (execute r e w))"
  "lastTransaction (snd (execute r (e\<lparr>logEvent := sink\<rparr>) w)) = lastTransaction (snd (execute r e w))"
  "(fst (execute r (e\<lparr>logEvent := sink\<rparr>) w) = Stuck) = (fst (execute r e w) = Stuck)"
  by (simp_all add: execute_def try_block_sink catch_block_sink build_log_event_address Let_def frame_defs
      observe_append split: completion.splits option.splits)

lemma catch_block_storage:
  "catch_block r (e\<lparr>localStorage := ls\<rparr>) err f = catch_block r e err f"
  by (simp add: catch_block_def)

lemma build_log_event_env:
  assumes "now_exec_called e' = now_exec_called e" and "getRpcEndpoint e' = getRpcEndpoint e"
    and "getAddress e' = getAddress e"
  shows "build_log_event r e' f = build_log_event r e f"
  unfolding build_log_event_def assms ..

lemma build_log_event_storage:
  "build_log_event r (e\<lparr>localStorage := ls\<rparr>) f = build_log_event r e f"
  by (rule build_log_event_env) simp_all

lemma execute_storage:
  assumes "ls (''optout-metrics-'' @ getAddress e) = localStorage e (''optout-metrics-'' @ getAddress e)"
  shows "execute r (e\<lparr>localStorage := ls\<rparr>) w = execute r e w"
  using assms
  by (simp add: execute_def try_block_storage catch_block_storage build_log_event_storage
      build_log_event_address Let_def cong: completion.case_cong)

lemma execute_opted_out:
  assumes "localStorage e (''optout-metrics-'' @ getAddress e) = Some ''true''"
  shows "logged (trace (snd (execute r e w))) = logged (trace w)"
  using assms
  by (cases "now_stale_check e - lastTransaction w > NONCE_STALE_AFTER_MS";
      cases rule: paths [where e = e and L = "lastTransaction w"];
      simp add: execute_def step_defs frame_defs observe_append build_log_event_address)

lemma update_nonce: "map_of (AList.update ''nonce'' v options) ''nonce'' = Some v"
  by (simp add: update_conv')

text \<open>Runs: the order of the callbacks.\<close>

lemma execute_calls_numbered:
  assumes "numbered k r"
  shows "\<exists>cs. calls (trace (snd (execute r e w))) = calls (trace w) @ cs \<and>
           (\<forall>c \<in> set cs. number (promise_of (fst c)) = k) \<and>
           (fst (execute r e w) \<noteq> Stuck \<longrightarrow>
              (\<exists>c \<in> set cs. promise_of (fst c) = SubmittedPromise k))"
  using assms
  by (cases "now_stale_check e - lastTransaction w > NONCE_STALE_AFTER_MS";
      cases rule: paths [where e = e and L = "lastTransaction w"];
      cases "logEvent e";
      simp add: execute_def step_defs frame_defs observe_append numbered_def)

lemma worker_calls_numbered:
  assumes "numbered k r" and "\<not> hung w" and "txRequests w = r # rest"
  obtains cs where "calls (trace (worker e w)) = calls (trace w) @ cs"
    and "\<forall>c \<in> set cs. number (promise_of (fst c)) = k"
    and "\<not> hung (worker e w) \<longrightarrow> (\<exists>c \<in> set cs. promise_of (fst c) = SubmittedPromise k)"
proof -
  from execute_calls_numbered [OF assms(1), of e w]
  obtain cs where cs: "calls (trace (snd (execute r e w))) = calls (trace w) @ cs"
    "\<forall>c \<in> set cs. number (promise_of (fst c)) = k"
    "fst (execute r e w) \<noteq> Stuck \<longrightarrow> (\<exists>c \<in> set cs. promise_of (fst c) = SubmittedPromise k)"
    by blast
  have "calls (trace (worker e w)) = calls (trace w) @ cs"
    using worker_step(1) [OF assms(2,3), of e] cs(1)
    by (simp add: observe_append split: completion.splits)
  moreover have "\<not> hung (worker e w) \<longrightarrow> (\<exists>c \<in> set cs. promise_of (fst c) = SubmittedPromise k)"
    using worker_step(6) [OF assms(2,3), of e] cs(3) by simp
  ultimately show ?thesis using cs(2) that by blast
qed

lemma sorted_constant:
  assumes "\<forall>c \<in> set cs. f c = (d::nat)"
  shows "sorted (map f cs)"
  using assms by (induction cs) simp_all

lemma in_order_makeRequest:
  assumes "in_order d w"
  shows "in_order d (snd (makeRequest ty aid con arguments ovr logs w))"
proof -
  have "[d..<Suc (made w)] = [d..<made w] @ [made w]"
    using assms by (simp add: in_order_def)
  then show ?thesis
    using assms
    by (simp add: in_order_def makeRequest_def Let_def list_all2_appendI numbered_def)
qed

lemma in_order_worker:
  assumes "in_order d w"
  shows "\<exists>d'. in_order d' (worker e w)"
proof (cases "hung w \<or> txRequests w = []")
  case True
  then have "worker e w = w" by (auto simp add: worker_def)
  with assms show ?thesis by auto
next
  case False
  then obtain r rest where free: "\<not> hung w" and queue: "txRequests w = r # rest"
    by (cases "txRequests w") auto
  from assms queue have less: "d < made w"
    by (cases "d < made w") (simp_all add: in_order_def)
  then have upt: "[d..<made w] = d # [Suc d..<made w]"
    by (simp add: upt_conv_Cons)
  from assms queue upt have r: "numbered d r" and rest: "list_all2 numbered [Suc d..<made w] rest"
    by (simp_all add: in_order_def)
  from worker_calls_numbered [OF r free queue, of e]
  obtain cs where cs: "calls (trace (worker e w)) = calls (trace w) @ cs"
    "\<forall>c \<in> set cs. number (promise_of (fst c)) = d"
    "\<not> hung (worker e w) \<longrightarrow> (\<exists>c \<in> set cs. promise_of (fst c) = SubmittedPromise d)"
    by blast
  have old: "sorted (map (\<lambda>c. number (promise_of (fst c))) (calls (trace w)))"
    "\<forall>c \<in> set (calls (trace w)). number (promise_of (fst c)) < d"
    "\<forall>k. k < d \<longrightarrow> (\<exists>c \<in> set (calls (trace w)). promise_of (fst c) = SubmittedPromise k)"
    using assms free by (simp_all add: in_order_def)
  have "sorted (map (\<lambda>c. number (promise_of (fst c))) (calls (trace (worker e w))))"
    using old(1,2) cs(2) sorted_constant [OF cs(2)]
    by (auto simp add: cs(1) sorted_append intro: less_imp_le)
  moreover have "\<forall>c \<in> set (calls (trace (worker e w))). number (promise_of (fst c)) < Suc d"
    using old(2) cs(2) by (auto simp add: cs(1) less_Suc_eq)
  moreover have "\<exists>c \<in> set (calls (trace (worker e w))). promise_of (fst c) = SubmittedPromise k"
    if "(if hung (worker e w) then Suc k else k) < Suc d" for k
  proof (cases "k < d")
    case True
    with old(3) show ?thesis by (auto simp add: cs(1))
  next
    case False
    with that have "k = d" and "\<not> hung (worker e w)" by (auto split: if_splits)
    with cs(3) show ?thesis by (auto simp add: cs(1))
  qed
  moreover have "Suc d \<le> made (worker e w)"
    and "list_all2 numbered [Suc d..<made (worker e w)] (txRequests (worker e w))"
    using worker_step(4,5) [OF free queue, of e] less rest by simp_all
  ultimately have "in_order (Suc d) (worker e w)"
    by (simp add: in_order_def)
  then show ?thesis ..
qed

lemma in_order_run:
  assumes "in_order d w"
  shows "\<exists>d'. in_order d' (run acts w)"
  using assms
proof (induction acts arbitrary: d w)
  case Nil
  then show ?case by auto
next
  case (Cons a acts)
  have "\<exists>d'. in_order d' (act a w)"
  proof (cases a)
    case (MakeRequest ty aid con arguments ovr logs)
    then have "in_order d (act a w)"
      using in_order_makeRequest [OF Cons.prems] by simp
    then show ?thesis ..
  next
    case (Work e)
    with in_order_worker [OF Cons.prems] show ?thesis by auto
  qed
  then show ?case using Cons.IH by auto
qed

lemma in_order_TxExecutor: "in_order 0 (TxExecutor nonce0 now)"
  by (simp add: in_order_def TxExecutor_def)

lemmas run_defs = scenario_defs step_defs frame_defs

text \<open>The record and the delivery of errors.\<close>

lemma execute_record:
  assumes "fst (execute r e w) \<noteq> Stuck"
  shows "logged (trace (snd (execute r e w))) =
           logged (trace w) @
           (if localStorage e (''optout-metrics-'' @ getAddress e) = Some ''true'' then []
            else [record_of_outcome r e (new_calls w (snd (execute r e w)))])"
  using assms
  by (cases "now_stale_check e - lastTransaction w > NONCE_STALE_AFTER_MS";
      cases rule: paths [where e = e and L = "lastTransaction w"];
      simp add: execute_def step_defs frame_defs observe_append build_log_event_def
        record_of_outcome_def new_calls_def Error_def)

lemmas reach_defs = balance_passes_def nonce_ready_def gate_passed_def populated_def

lemma new_calls_execute:
  assumes "calls (trace (snd (execute r e w))) = calls (trace w) @ cs"
  shows "new_calls w (snd (execute r e w)) = cs"
  using assms by (simp add: new_calls_def)

lemma new_calls_worker:
  assumes "\<not> hung w" and "txRequests w = r # rest"
  shows "new_calls w (worker e w) = new_calls w (snd (execute r e w))"
  using worker_step(1) [OF assms, of e]
  by (simp add: new_calls_def observe_append split: completion.splits)

lemma delivers_balance_error:
  assumes "getBalance e = Rejects err"
  shows "new_calls w (snd (execute r e w)) =
           [(onSubmissionError r, Failure err)]"
  using assms
  by (intro new_calls_execute) (simp add: execute_def step_defs frame_defs observe_append)

lemma delivers_balance_low:
  assumes "getBalance e = Resolves b"
    and "b < MIN_BALANCE_ETH"
  shows "new_calls w (snd (execute r e w)) =
           [(onSubmissionError r, Failure (Error ''xDAI balance too low!''))]"
  using assms
  by (intro new_calls_execute) (simp add: execute_def step_defs frame_defs observe_append)

lemma delivers_nonce_error:
  assumes "balance_passes e"
    and "now_stale_check e - lastTransaction w > NONCE_STALE_AFTER_MS"
    and "getNonce e = Rejects err"
  shows "new_calls w (snd (execute r e w)) =
           [(onSubmissionError r, Failure err)]"
  using assms
  by (intro new_calls_execute,
      cases "now_stale_check e - lastTransaction w > NONCE_STALE_AFTER_MS")
     (auto simp add: reach_defs execute_def step_defs frame_defs observe_append)

lemma delivers_gate_error:
  assumes "nonce_ready e w"
    and "openConfirmationWindowForTransaction e = Rejects err"
  shows "new_calls w (snd (execute r e w)) =
           [(onSubmissionError r, Failure err)]"
  using assms
  by (intro new_calls_execute,
      cases "now_stale_check e - lastTransaction w > NONCE_STALE_AFTER_MS")
     (auto simp add: reach_defs execute_def step_defs frame_defs observe_append)

lemma delivers_populate_error:
  assumes "gate_passed e w"
    and "populateTransaction e = Rejects err"
  shows "new_calls w (snd (execute r e w)) =
           [(onSubmissionError r, Failure err)]"
  using assms
  by (intro new_calls_execute,
      cases "now_stale_check e - lastTransaction w > NONCE_STALE_AFTER_MS")
     (auto simp add: reach_defs execute_def step_defs frame_defs observe_append)

lemma delivers_forward_error:
  assumes "populated e w"
    and "forwardOrThrow e = Rejects err"
    and "forward_settles_after e \<le> TX_SUBMIT_TIMEOUT"
  shows "new_calls w (snd (execute r e w)) =
           [(onSubmissionError r, Failure err)]"
  using assms
  by (intro new_calls_execute,
      cases "now_stale_check e - lastTransaction w > NONCE_STALE_AFTER_MS")
     (auto simp add: reach_defs execute_def step_defs frame_defs observe_append)

lemma delivers_receipt_error:
  assumes "populated e w"
    and "forwardOrThrow e = Resolves response"
    and "forward_settles_after e \<le> TX_SUBMIT_TIMEOUT"
    and "waitForTransaction e = Rejects err"
    and "now_submitted e \<noteq> 0"
  shows "new_calls w (snd (execute r e w)) =
           [(onTransactionResponse r, Response response), (onReceiptError r, Failure err)]"
  using assms
  by (intro new_calls_execute,
      cases "now_stale_check e - lastTransaction w > NONCE_STALE_AFTER_MS")
     (auto simp add: reach_defs execute_def step_defs frame_defs observe_append)

lemma delivers_timeout:
  assumes "populated e w"
    and "forwardOrThrow e = Never \<or> forward_settles_after e > TX_SUBMIT_TIMEOUT"
  shows "new_calls w (snd (execute r e w)) =
           [(onSubmissionError r,
             Failure (Error (''tx request '' @ actionId r @ '' failed to submit: timed out}'')))]"
proof -
  have "timeoutAfter (forwardOrThrow e) (forward_settles_after e) TX_SUBMIT_TIMEOUT msg =
       Rejects (Error msg)" for msg
    using assms(2) by (auto simp add: timeoutAfter_simps)
  then show ?thesis
    using assms(1)
    by (intro new_calls_execute,
        cases "now_stale_check e - lastTransaction w > NONCE_STALE_AFTER_MS")
       (auto simp add: reach_defs execute_def step_defs frame_defs observe_append)
qed

text \<open>Runs: the acknowledged nonces.\<close>

lemma submitted_nonces_skip: "\<not> is_forward x \<Longrightarrow> submitted_nonces (x # t) = submitted_nonces t"
  by (cases x) simp_all

lemma submitted_nonces_append:
  assumes "s = [] \<or> \<not> is_forward (last s)"
  shows "submitted_nonces (s @ t) = submitted_nonces s @ submitted_nonces t"
  using assms
  by (induction s rule: submitted_nonces.induct)
     (auto simp add: submitted_nonces_skip split: if_splits option.splits)

lemma execute_chunk:
  assumes "\<not> hung w" and "txRequests w = q # rest"
    and "safe_integer (nonce w)"
    and "case refresh e w of None \<Rightarrow> True | Some n \<Rightarrow> safe_integer n"
  shows "\<exists>chunk. trace (snd (execute r e w)) = trace w @ chunk \<and>
           (chunk = [] \<or> \<not> is_forward (last chunk)) \<and>
           (submitted_nonces chunk = [] \<and>
            nonce (snd (execute r e w)) = (case refresh e w of None \<Rightarrow> nonce w | Some n \<Rightarrow> n) \<or>
            submitted_nonces chunk = [case refresh e w of None \<Rightarrow> nonce w | Some n \<Rightarrow> n] \<and>
            nonce (snd (execute r e w)) = (case refresh e w of None \<Rightarrow> nonce w | Some n \<Rightarrow> n) + 1)"
  using assms
  by (cases "now_stale_check e - lastTransaction w > NONCE_STALE_AFTER_MS";
      cases rule: paths [where e = e and L = "lastTransaction w"];
      simp add: execute_def step_defs frame_defs update_nonce refresh_def round_double_increment)

lemma worker_chunk:
  assumes "safe_integer (nonce w)"
    and "case refresh e w of None \<Rightarrow> True | Some n \<Rightarrow> safe_integer n"
  shows "\<exists>chunk. trace (worker e w) = trace w @ chunk \<and>
           (chunk = [] \<or> \<not> is_forward (last chunk)) \<and>
           (submitted_nonces chunk = [] \<and>
            nonce (worker e w) = (case refresh e w of None \<Rightarrow> nonce w | Some n \<Rightarrow> n) \<or>
            submitted_nonces chunk = [case refresh e w of None \<Rightarrow> nonce w | Some n \<Rightarrow> n] \<and>
            nonce (worker e w) = (case refresh e w of None \<Rightarrow> nonce w | Some n \<Rightarrow> n) + 1)"
proof (cases "hung w \<or> txRequests w = []")
  case True
  then have "worker e w = w" and "refresh e w = None"
    by (auto simp add: worker_def refresh_def)
  then show ?thesis by simp
next
  case False
  then obtain r rest where free: "\<not> hung w" and queue: "txRequests w = r # rest"
    by (cases "txRequests w") auto
  let ?n = "case refresh e w of None \<Rightarrow> nonce w | Some n \<Rightarrow> n"
  from execute_chunk [OF free queue assms, of r]
  obtain chunk where chunk: "trace (snd (execute r e w)) = trace w @ chunk"
    "chunk = [] \<or> \<not> is_forward (last chunk)"
    "submitted_nonces chunk = [] \<and> nonce (snd (execute r e w)) = ?n \<or>
     submitted_nonces chunk = [?n] \<and> nonce (snd (execute r e w)) = ?n + 1"
    by blast
  obtain more where more: "trace (worker e w) = trace w @ chunk @ more"
    "more = [] \<or> (\<exists>err. more = [HowDidWeGetHere err])"
    using worker_step(1) [OF free queue, of e] chunk(1)
    by (cases "fst (execute r e w)") simp_all
  have "submitted_nonces (chunk @ more) = submitted_nonces chunk"
    using more(2) by (auto simp add: submitted_nonces_append [OF chunk(2)])
  moreover have "chunk @ more = [] \<or> \<not> is_forward (last (chunk @ more))"
    using more(2) chunk(2) by (cases "more = []") auto
  ultimately show ?thesis
    using chunk(3) more(1) worker_step(2) [OF free queue, of e] by auto
qed

lemma increasing_extend:
  assumes "increasing w" and "trace v = trace w @ chunk"
    and "chunk = [] \<or> \<not> is_forward (last chunk)"
    and "nonce w \<le> n"
    and "submitted_nonces chunk = [] \<and> nonce v = n \<or>
         submitted_nonces chunk = [n] \<and> nonce v = n + 1"
  shows "increasing v \<and> nonce w \<le> nonce v"
proof -
  have tidy: "trace w = [] \<or> \<not> is_forward (last (trace w))"
    and sorted: "sorted_wrt (<) (submitted_nonces (trace w))"
    and below: "\<forall>m \<in> set (submitted_nonces (trace w)). m < nonce w"
    using assms(1) by (simp_all add: increasing_def)
  have all: "submitted_nonces (trace v) = submitted_nonces (trace w) @ submitted_nonces chunk"
    by (simp add: assms(2) submitted_nonces_append [OF tidy])
  have last: "trace v = [] \<or> \<not> is_forward (last (trace v))"
    using tidy assms(3) by (cases "chunk = []") (auto simp add: assms(2))
  from assms(5) show ?thesis
  proof
    assume "submitted_nonces chunk = [] \<and> nonce v = n"
    then show ?thesis
      using sorted below all last assms(4) by (auto simp add: increasing_def)
  next
    assume "submitted_nonces chunk = [n] \<and> nonce v = n + 1"
    then show ?thesis
      using sorted below all last assms(4)
      by (auto simp add: increasing_def sorted_wrt_append)
  qed
qed

lemma consecutive_extend:
  assumes "consecutive n0 w" and "increasing w" and "trace v = trace w @ chunk"
    and "submitted_nonces chunk = [] \<and> nonce v = nonce w \<or>
         submitted_nonces chunk = [nonce w] \<and> nonce v = nonce w + 1"
  shows "consecutive n0 v"
proof -
  have tidy: "trace w = [] \<or> \<not> is_forward (last (trace w))"
    using assms(2) by (simp add: increasing_def)
  have all: "submitted_nonces (trace v) = submitted_nonces (trace w) @ submitted_nonces chunk"
    by (simp add: assms(3) submitted_nonces_append [OF tidy])
  let ?m = "length (submitted_nonces (trace w))"
  have old: "submitted_nonces (trace w) = map (\<lambda>k. n0 + int k) [0..<?m]"
    "nonce w = n0 + int ?m"
    using assms(1) by (simp_all add: consecutive_def)
  from assms(4) show ?thesis
  proof
    assume "submitted_nonces chunk = [] \<and> nonce v = nonce w"
    then show ?thesis using assms(1) all by (simp add: consecutive_def)
  next
    assume *: "submitted_nonces chunk = [nonce w] \<and> nonce v = nonce w + 1"
    then have "submitted_nonces (trace v) = map (\<lambda>k. n0 + int k) [0..<Suc ?m]"
      using old all by simp
    moreover have "length (submitted_nonces (trace v)) = Suc ?m"
      using * all by simp
    ultimately show ?thesis
      using * old(2) by (simp add: consecutive_def)
  qed
qed

lemma every_refresh_run:
  assumes "every_refresh (\<le>) acts w" and "increasing w"
  shows "increasing (run acts w) \<and> nonce w \<le> nonce (run acts w)"
  using assms
proof (induction acts arbitrary: w)
  case Nil
  then show ?case by simp
next
  case (Cons a acts)
  show ?case
  proof (cases a)
    case (MakeRequest ty aid con arguments ovr logs)
    then have same: "trace (act a w) = trace w" "nonce (act a w) = nonce w"
      by (simp_all add: makeRequest_def Let_def)
    then have "increasing (act a w)"
      using Cons.prems(2) by (simp add: increasing_def)
    moreover have "every_refresh (\<le>) acts (act a w)"
      using Cons.prems(1) MakeRequest by simp
    ultimately show ?thesis
      using Cons.IH [of "act a w"] same by simp
  next
    case (Work e)
    let ?n = "case refresh e w of None \<Rightarrow> nonce w | Some n \<Rightarrow> n"
    from Work Cons.prems(1) have safe: "safe_integer (nonce w)"
      and answer: "case refresh e w of None \<Rightarrow> True | Some n \<Rightarrow> safe_integer n \<and> nonce w \<le> n"
      and rest: "every_refresh (\<le>) acts (worker e w)"
      by simp_all
    from answer have answer_safe: "case refresh e w of None \<Rightarrow> True | Some n \<Rightarrow> safe_integer n"
      and up: "nonce w \<le> ?n"
      by (simp_all split: option.splits)
    from worker_chunk [OF safe answer_safe]
    obtain chunk where chunk: "trace (worker e w) = trace w @ chunk"
      "chunk = [] \<or> \<not> is_forward (last chunk)"
      "submitted_nonces chunk = [] \<and> nonce (worker e w) = ?n \<or>
       submitted_nonces chunk = [?n] \<and> nonce (worker e w) = ?n + 1"
      by blast
    from increasing_extend [OF Cons.prems(2) chunk(1,2) up chunk(3)]
    have "increasing (worker e w)" and "nonce w \<le> nonce (worker e w)" by simp_all
    then show ?thesis
      using Cons.IH [OF rest] Work by simp
  qed
qed

lemma every_refresh_same_run:
  assumes "every_refresh (=) acts w" and "increasing w" and "consecutive n0 w"
  shows "consecutive n0 (run acts w)"
  using assms
proof (induction acts arbitrary: w)
  case Nil
  then show ?case by simp
next
  case (Cons a acts)
  show ?case
  proof (cases a)
    case (MakeRequest ty aid con arguments ovr logs)
    then have same: "trace (act a w) = trace w" "nonce (act a w) = nonce w"
      by (simp_all add: makeRequest_def Let_def)
    then have "increasing (act a w)" and "consecutive n0 (act a w)"
      using Cons.prems(2,3) by (simp_all add: increasing_def consecutive_def)
    moreover have "every_refresh (=) acts (act a w)"
      using Cons.prems(1) MakeRequest by simp
    ultimately show ?thesis
      using Cons.IH [of "act a w"] by simp
  next
    case (Work e)
    let ?n = "case refresh e w of None \<Rightarrow> nonce w | Some n \<Rightarrow> n"
    from Work Cons.prems(1) have safe: "safe_integer (nonce w)"
      and answer: "case refresh e w of None \<Rightarrow> True | Some n \<Rightarrow> safe_integer n \<and> nonce w = n"
      and rest: "every_refresh (=) acts (worker e w)"
      by simp_all
    from answer have answer_safe: "case refresh e w of None \<Rightarrow> True | Some n \<Rightarrow> safe_integer n"
      and same: "?n = nonce w"
      by (simp_all split: option.splits)
    from worker_chunk [OF safe answer_safe]
    obtain chunk where chunk: "trace (worker e w) = trace w @ chunk"
      "chunk = [] \<or> \<not> is_forward (last chunk)"
      "submitted_nonces chunk = [] \<and> nonce (worker e w) = nonce w \<or>
       submitted_nonces chunk = [nonce w] \<and> nonce (worker e w) = nonce w + 1"
      unfolding same by blast
    have "nonce w \<le> nonce w" by simp
    from increasing_extend [OF Cons.prems(2) chunk(1,2) this chunk(3)]
    have "increasing (worker e w)" by simp
    moreover have "consecutive n0 (worker e w)"
      using Cons.prems(3,2) chunk(1,3) by (rule consecutive_extend)
    ultimately show ?thesis
      using Cons.IH [OF rest] Work by simp
  qed
qed

lemma increasing_distinct: "sorted_wrt (<) (xs :: int list) \<Longrightarrow> distinct xs"
  by (induction xs) auto

lemma run_append: "run (pre @ post) w = run post (run pre w)"
  by (induction pre arbitrary: w) simp_all

lemma every_refresh_append:
  "every_refresh ok (pre @ post) w =
     (every_refresh ok pre w \<and> every_refresh ok post (run pre w))"
  by (induction ok pre w rule: every_refresh.induct) simp_all

lemma increasing_TxExecutor: "increasing (TxExecutor nonce0 now)"
  by (simp add: increasing_def TxExecutor_def)

lemma consecutive_TxExecutor: "consecutive nonce0 (TxExecutor nonce0 now)"
  by (simp add: consecutive_def TxExecutor_def)

section \<open>The claims\<close>

text \<open>
  C1, as the code has it. When the transaction is submitted and its receipt reports a
  failed execution (status other than 1), \<open>onTransactionResponse\<close> is called with the
  network's response and \<open>onTransactionReceipt\<close> with the receipt: the confirmed promise is
  resolved with the receipt, and \<open>onReceiptError\<close> is not called. The nonce, a safe
  integer, stays incremented. The error \<open>transaction reverted\<close> only goes into the
  instrumentation record.
\<close>

theorem reverted_receipt_resolves_confirmed:
  assumes "getBalance e = Resolves b" and "\<not> b < MIN_BALANCE_ETH"
    and "now_stale_check e - lastTransaction w > NONCE_STALE_AFTER_MS \<longrightarrow> getNonce e = Resolves n"
    and "openConfirmationWindowForTransaction e = Resolves ()"
    and "populateTransaction e = Resolves (to, data)"
    and "forwardOrThrow e = Resolves response"
    and "forward_settles_after e \<le> TX_SUBMIT_TIMEOUT"
    and "waitForTransaction e = Resolves receipt" and "status receipt \<noteq> Some 1"
    and "safe_integer
           (if now_stale_check e - lastTransaction w > NONCE_STALE_AFTER_MS then n else nonce w)"
  shows "calls (trace (snd (execute txRequest e w))) =
           calls (trace w) @
           [(onTransactionResponse txRequest, Response response),
            (onTransactionReceipt txRequest, Receipt receipt)]
       \<and> nonce (snd (execute txRequest e w)) =
           (if now_stale_check e - lastTransaction w > NONCE_STALE_AFTER_MS then n else nonce w) + 1
       \<and> map log_error (logged (trace (snd (execute txRequest e w)))) =
           map log_error (logged (trace w)) @
           (if localStorage e (''optout-metrics-'' @ getAddress e) = Some ''true'' then []
            else [if now_confirmed e \<noteq> 0 then Some ''transaction reverted'' else None])"
  using assms
  by (cases "now_stale_check e - lastTransaction w > NONCE_STALE_AFTER_MS")
     (simp_all add: execute_def step_defs frame_defs observe_append build_log_event_def Error_def
        round_double_increment)

theorem reverted_receipt_resolves_confirmed_witness:
  "calls (trace (snd (execute scenario_queued
      (scenario_env\<lparr>waitForTransaction :=
         Resolves \<lparr>transactionHash = ''0xh1'', blockNumber = 7, status = Some 0\<rparr>\<rparr>)
      scenario_start))) =
     [(Resolve (SubmittedPromise 0),
       Response \<lparr>hash = ''0xh1'', sender = ''0xA'', confirmations = 0\<rparr>),
      (Resolve (ReceiptPromise 0),
       Receipt \<lparr>transactionHash = ''0xh1'', blockNumber = 7, status = Some 0\<rparr>)]
   \<and> nonce (snd (execute scenario_queued
      (scenario_env\<lparr>waitForTransaction :=
         Resolves \<lparr>transactionHash = ''0xh1'', blockNumber = 7, status = Some 0\<rparr>\<rparr>)
      scenario_start)) = 6"
  using reverted_receipt_resolves_confirmed
    [of "scenario_env\<lparr>waitForTransaction :=
           Resolves \<lparr>transactionHash = ''0xh1'', blockNumber = 7, status = Some 0\<rparr>\<rparr>"
        1 scenario_start 9 "''0xc0''" "''0xda''"
        "\<lparr>hash = ''0xh1'', sender = ''0xA'', confirmations = 0\<rparr>"
        "\<lparr>transactionHash = ''0xh1'', blockNumber = 7, status = Some 0\<rparr>" scenario_queued]
  by (simp add: scenario_start_fields scenario_env_def scenario_queued_def MIN_BALANCE_ETH_def
      NONCE_STALE_AFTER_MS_def TX_SUBMIT_TIMEOUT_def safe_integer_def)

text \<open>
  C1 as stated fails: in the scenario, with a receipt of status 0, the confirmed promise is
  fulfilled with the receipt and its reject function is never called.
\<close>

theorem reverted_receipt_rejects_confirmed_counterexample:
  "state_of (ReceiptPromise 0)
     (trace (worker
        (scenario_env\<lparr>waitForTransaction :=
           Resolves \<lparr>transactionHash = ''0xh1'', blockNumber = 7, status = Some 0\<rparr>\<rparr>)
        scenario_start)) =
   Fulfilled (Receipt \<lparr>transactionHash = ''0xh1'', blockNumber = 7, status = Some 0\<rparr>)
   \<and> (Reject (ReceiptPromise 0), Failure (Error ''transaction reverted'')) \<notin>
       set (calls (trace (worker
        (scenario_env\<lparr>waitForTransaction :=
           Resolves \<lparr>transactionHash = ''0xh1'', blockNumber = 7, status = Some 0\<rparr>\<rparr>)
        scenario_start)))"
  by (simp add: scenario_defs step_defs frame_defs state_of_def)

text \<open>
  C2. When the balance check finds the balance below the floor, the request's
  \<open>onSubmissionError\<close> is called with the error \<open>xDAI balance too low!\<close> and no other
  callback is called, the nonce and the time of the last transaction are unchanged, the
  low-balance notification fires exactly once, and the worker is free for the rest of
  the queue.
\<close>

theorem insufficient_balance_rejects_submission:
  assumes "getBalance e = Resolves b" and "b < MIN_BALANCE_ETH"
    and "\<not> hung w" and "txRequests w = txRequest # rest"
  shows "calls (trace (worker e w)) =
           calls (trace w) @
           [(onSubmissionError txRequest, Failure (Error ''xDAI balance too low!''))]
       \<and> nonce (worker e w) = nonce w
       \<and> lastTransaction (worker e w) = lastTransaction w
       \<and> notifications (trace (worker e w)) = notifications (trace w) + 1
       \<and> txRequests (worker e w) = rest
       \<and> \<not> hung (worker e w)"
proof -
  have "fst (execute txRequest e w) \<noteq> Stuck"
    and "calls (trace (snd (execute txRequest e w))) =
           calls (trace w) @
           [(onSubmissionError txRequest, Failure (Error ''xDAI balance too low!''))]"
    and "nonce (snd (execute txRequest e w)) = nonce w"
    and "lastTransaction (snd (execute txRequest e w)) = lastTransaction w"
    and "notifications (trace (snd (execute txRequest e w))) = notifications (trace w) + 1"
    using assms(1,2)
    by (simp_all add: execute_def step_defs frame_defs observe_append notifications_def
        split: option.splits)
  then show ?thesis
    using worker_step [OF assms(3,4), of e]
    by (simp add: observe_append notifications_def split: completion.splits)
qed

theorem insufficient_balance_rejects_submission_witness:
  "calls (trace (worker (scenario_env\<lparr>getBalance := Resolves (1 / 1000)\<rparr>) scenario_start)) =
     [(Reject (SubmittedPromise 0), Failure (Error ''xDAI balance too low!''))]
   \<and> nonce (worker (scenario_env\<lparr>getBalance := Resolves (1 / 1000)\<rparr>) scenario_start) = 5
   \<and> notifications
        (trace (worker (scenario_env\<lparr>getBalance := Resolves (1 / 1000)\<rparr>) scenario_start)) = 1
   \<and> txRequests (worker (scenario_env\<lparr>getBalance := Resolves (1 / 1000)\<rparr>) scenario_start) = []"
  using insufficient_balance_rejects_submission
    [of "scenario_env\<lparr>getBalance := Resolves (1 / 1000)\<rparr>" "1 / 1000" scenario_start
        scenario_queued "[]"]
  by (simp add: scenario_start_fields scenario_env_def scenario_queued_def MIN_BALANCE_ETH_def
      notifications_def)

text \<open>
  C3, as the code has it. When the network does not acknowledge the submission within
  \<open>TX_SUBMIT_TIMEOUT\<close>, \<open>onSubmissionError\<close> is called with the timeout error and no other
  callback is called, the nonce is not incremented (it is the nonce the request was
  submitted with: the local one, or the network's when this request found it stale), the
  time of the last transaction is unchanged, and the worker is free for the rest of the
  queue.
\<close>

theorem submission_timeout_rejects_submission:
  assumes "getBalance e = Resolves b" and "\<not> b < MIN_BALANCE_ETH"
    and "now_stale_check e - lastTransaction w > NONCE_STALE_AFTER_MS \<longrightarrow> getNonce e = Resolves n"
    and "openConfirmationWindowForTransaction e = Resolves ()"
    and "populateTransaction e = Resolves (to, data)"
    and "forwardOrThrow e = Never \<or> forward_settles_after e > TX_SUBMIT_TIMEOUT"
    and "\<not> hung w" and "txRequests w = txRequest # rest"
  shows "calls (trace (worker e w)) =
           calls (trace w) @
           [(onSubmissionError txRequest,
             Failure (Error (''tx request '' @ actionId txRequest @
                             '' failed to submit: timed out}'')))]
       \<and> nonce (worker e w) =
           (if now_stale_check e - lastTransaction w > NONCE_STALE_AFTER_MS then n else nonce w)
       \<and> lastTransaction (worker e w) = lastTransaction w
       \<and> txRequests (worker e w) = rest
       \<and> \<not> hung (worker e w)"
proof -
  have timed_out:
    "timeoutAfter (forwardOrThrow e) (forward_settles_after e) TX_SUBMIT_TIMEOUT msg =
       Rejects (Error msg)" for msg
    using assms(6) by (auto simp add: timeoutAfter_simps)
  have "fst (execute txRequest e w) \<noteq> Stuck"
    and "calls (trace (snd (execute txRequest e w))) =
           calls (trace w) @
           [(onSubmissionError txRequest,
             Failure (Error (''tx request '' @ actionId txRequest @
                             '' failed to submit: timed out}'')))]"
    and "nonce (snd (execute txRequest e w)) =
           (if now_stale_check e - lastTransaction w > NONCE_STALE_AFTER_MS then n else nonce w)"
    and "lastTransaction (snd (execute txRequest e w)) = lastTransaction w"
    using assms(1-5) timed_out
    by (simp_all add: execute_def step_defs frame_defs observe_append split: option.splits)
  then show ?thesis
    using worker_step [OF assms(7,8), of e]
    by (simp add: observe_append split: completion.splits)
qed

theorem submission_timeout_rejects_submission_witness:
  "calls (trace (worker (scenario_env\<lparr>forward_settles_after := 30001\<rparr>) scenario_start)) =
     [(Reject (SubmittedPromise 0),
       Failure (Error ''tx request a1 failed to submit: timed out}''))]
   \<and> nonce (worker (scenario_env\<lparr>forward_settles_after := 30001\<rparr>) scenario_start) = 5
   \<and> lastTransaction (worker (scenario_env\<lparr>forward_settles_after := 30001\<rparr>) scenario_start) = 1000
   \<and> txRequests (worker (scenario_env\<lparr>forward_settles_after := 30001\<rparr>) scenario_start) = []"
  using submission_timeout_rejects_submission
    [of "scenario_env\<lparr>forward_settles_after := 30001\<rparr>" 1 scenario_start 9
        "''0xc0''" "''0xda''" scenario_queued "[]"]
  by (simp add: scenario_start_fields scenario_env_def scenario_queued_def MIN_BALANCE_ETH_def
      NONCE_STALE_AFTER_MS_def TX_SUBMIT_TIMEOUT_def)

text \<open>
  C3 as stated fails: a request that finds the nonce stale replaces it by the network's
  value before it is submitted, so after the timeout the nonce is 9, not 5.
\<close>

theorem submission_timeout_nonce_unchanged_counterexample:
  "nonce scenario_start = 5
   \<and> nonce (worker (scenario_env\<lparr>now_stale_check := 50000, forwardOrThrow := Never\<rparr>)
        scenario_start) = 9
   \<and> calls (trace (worker (scenario_env\<lparr>now_stale_check := 50000, forwardOrThrow := Never\<rparr>)
        scenario_start)) =
       [(Reject (SubmittedPromise 0),
         Failure (Error ''tx request a1 failed to submit: timed out}''))]"
  by (simp add: scenario_defs step_defs frame_defs)

text \<open>
  C4, as the code has it. In a run from the construction of the executor, with nonces
  that are safe integers, in which no refresh answers a nonce below the local one, the
  acknowledged submissions carry strictly increasing nonces, so no two carry the same, and
  the executor's nonce never decreases along the run. When moreover no refresh changes
  the nonce, the \<open>k\<close>-th acknowledged submission carries the starting nonce plus \<open>k\<close>, and
  the executor's nonce is the starting nonce plus the number of acknowledged submissions.
\<close>

theorem nonces_increase_unless_refreshed_downwards:
  assumes "every_refresh (\<le>) acts (TxExecutor nonce0 now)"
  shows "sorted_wrt (<) (submitted_nonces (trace (run acts (TxExecutor nonce0 now))))
       \<and> distinct (submitted_nonces (trace (run acts (TxExecutor nonce0 now))))
       \<and> nonce (run (take k acts) (TxExecutor nonce0 now)) \<le> nonce (run acts (TxExecutor nonce0 now))
       \<and> (every_refresh (=) acts (TxExecutor nonce0 now) \<longrightarrow>
            submitted_nonces (trace (run acts (TxExecutor nonce0 now))) =
              map (\<lambda>k. nonce0 + int k)
                [0..<length (submitted_nonces (trace (run acts (TxExecutor nonce0 now))))] \<and>
            nonce (run acts (TxExecutor nonce0 now)) =
              nonce0 + int (length (submitted_nonces (trace (run acts (TxExecutor nonce0 now))))))"
proof -
  let ?start = "TxExecutor nonce0 now"
  let ?final = "run acts ?start"
  have up: "increasing ?final"
    using every_refresh_run [OF assms increasing_TxExecutor] by simp
  then have sorted: "sorted_wrt (<) (submitted_nonces (trace ?final))"
    by (simp add: increasing_def)
  then have distinct: "distinct (submitted_nonces (trace ?final))"
    by (rule increasing_distinct)
  have split: "every_refresh (\<le>) (take k acts) ?start"
    "every_refresh (\<le>) (drop k acts) (run (take k acts) ?start)"
    using assms every_refresh_append [of "(\<le>)" "take k acts" "drop k acts" ?start]
    by simp_all
  have "increasing (run (take k acts) ?start)"
    using every_refresh_run [OF split(1) increasing_TxExecutor] by simp
  from every_refresh_run [OF split(2) this]
  have mono: "nonce (run (take k acts) ?start) \<le> nonce ?final"
    using run_append [of "take k acts" "drop k acts" ?start] by simp
  have "consecutive nonce0 ?final" if "every_refresh (=) acts ?start"
    using that increasing_TxExecutor consecutive_TxExecutor by (rule every_refresh_same_run)
  then show ?thesis
    using sorted distinct mono by (simp add: consecutive_def)
qed

theorem nonces_increase_unless_refreshed_downwards_witness:
  "every_refresh (=) [scenario_request, Work scenario_env, scenario_request, Work scenario_env]
     (TxExecutor 5 1000)
   \<and> submitted_nonces (trace (run
        [scenario_request, Work scenario_env, scenario_request, Work scenario_env]
        (TxExecutor 5 1000))) = [5, 6]
   \<and> nonce (run [scenario_request, Work scenario_env, scenario_request, Work scenario_env]
        (TxExecutor 5 1000)) = 7
   \<and> every_refresh (\<le>)
        [scenario_request, Work scenario_env, scenario_request,
         Work (scenario_env\<lparr>now_stale_check := 30000, getNonce := Resolves 8\<rparr>)]
        (TxExecutor 5 1000)
   \<and> distinct (submitted_nonces (trace (run
        [scenario_request, Work scenario_env, scenario_request,
         Work (scenario_env\<lparr>now_stale_check := 30000, getNonce := Resolves 8\<rparr>)]
        (TxExecutor 5 1000))))
   \<and> nonce (run [scenario_request, Work scenario_env] (TxExecutor 5 1000)) \<le>
       nonce (run
        [scenario_request, Work scenario_env, scenario_request,
         Work (scenario_env\<lparr>now_stale_check := 30000, getNonce := Resolves 8\<rparr>)]
        (TxExecutor 5 1000))"
proof -
  have same: "every_refresh (=)
      [scenario_request, Work scenario_env, scenario_request, Work scenario_env]
      (TxExecutor 5 1000)"
    and same_up: "every_refresh (\<le>)
      [scenario_request, Work scenario_env, scenario_request, Work scenario_env]
      (TxExecutor 5 1000)"
    and up: "every_refresh (\<le>)
      [scenario_request, Work scenario_env, scenario_request,
       Work (scenario_env\<lparr>now_stale_check := 30000, getNonce := Resolves 8\<rparr>)]
      (TxExecutor 5 1000)"
    by (simp_all add: run_defs refresh_def safe_integer_def)
  have count: "length (submitted_nonces (trace (run
        [scenario_request, Work scenario_env, scenario_request, Work scenario_env]
        (TxExecutor 5 1000)))) = 2"
    by (simp add: run_defs)
  from nonces_increase_unless_refreshed_downwards [OF same_up, of 0] same
  have "submitted_nonces (trace (run
        [scenario_request, Work scenario_env, scenario_request, Work scenario_env]
        (TxExecutor 5 1000))) = map (\<lambda>k. 5 + int k) [0..<2]"
    and "nonce (run [scenario_request, Work scenario_env, scenario_request, Work scenario_env]
        (TxExecutor 5 1000)) = 5 + int 2"
    unfolding count by blast+
  then have fresh: "submitted_nonces (trace (run
        [scenario_request, Work scenario_env, scenario_request, Work scenario_env]
        (TxExecutor 5 1000))) = [5, 6]"
    "nonce (run [scenario_request, Work scenario_env, scenario_request, Work scenario_env]
        (TxExecutor 5 1000)) = 7"
    by (simp_all add: upt_rec)
  from nonces_increase_unless_refreshed_downwards [OF up, of 2]
  have "distinct (submitted_nonces (trace (run
        [scenario_request, Work scenario_env, scenario_request,
         Work (scenario_env\<lparr>now_stale_check := 30000, getNonce := Resolves 8\<rparr>)]
        (TxExecutor 5 1000))))"
    and "nonce (run [scenario_request, Work scenario_env] (TxExecutor 5 1000)) \<le>
       nonce (run
        [scenario_request, Work scenario_env, scenario_request,
         Work (scenario_env\<lparr>now_stale_check := 30000, getNonce := Resolves 8\<rparr>)]
        (TxExecutor 5 1000))"
    by simp_all
  with same up fresh show ?thesis by blast
qed

text \<open>
  C4 as stated fails: a refresh writes whatever the network answers. When the network
  answers 5 again after nonce 5 was used, two acknowledged submissions carry nonce 5, and
  the executor's nonce goes from 6 back to 5; when it answers 8, the second acknowledged
  submission carries 8, not the starting nonce plus one.
\<close>

theorem nonces_never_repeat_counterexample:
  "submitted_nonces (trace (run
      [scenario_request, Work scenario_env, scenario_request,
       Work (scenario_env\<lparr>now_stale_check := 30000, getNonce := Resolves 5\<rparr>)]
      (TxExecutor 5 1000))) = [5, 5]
   \<and> nonce (run [scenario_request, Work scenario_env] (TxExecutor 5 1000)) = 6
   \<and> nonce (run
      [scenario_request, Work scenario_env, scenario_request,
       Work (scenario_env\<lparr>now_stale_check := 30000, getNonce := Resolves 5,
                          openConfirmationWindowForTransaction := Rejects (Error ''denied'')\<rparr>)]
      (TxExecutor 5 1000)) = 5
   \<and> submitted_nonces (trace (run
      [scenario_request, Work scenario_env, scenario_request,
       Work (scenario_env\<lparr>now_stale_check := 30000, getNonce := Resolves 8\<rparr>)]
      (TxExecutor 5 1000))) = [5, 8]"
  by (simp add: run_defs)

text \<open>
  C5. In every run from the construction of the executor, whatever the interleaving of
  calls of \<open>makeRequest\<close> and steps of the worker, the callbacks are called one request
  at a time in the order the requests were made, and when a callback of the submitted
  promise of the \<open>j\<close>-th request is called, a callback of the submitted promise of every
  earlier request has been called before.
\<close>

theorem submissions_settle_in_enqueue_order:
  assumes "trace (run acts (TxExecutor nonce0 now)) = before @ Call cb v # after"
    and "promise_of cb = SubmittedPromise j" and "i < j"
  shows "sorted (map (\<lambda>c. number (promise_of (fst c))) (calls (trace (run acts (TxExecutor nonce0 now)))))
       \<and> (\<exists>c \<in> set (calls before). promise_of (fst c) = SubmittedPromise i)"
proof -
  from in_order_run [OF in_order_TxExecutor]
  obtain d where inv: "in_order d (run acts (TxExecutor nonce0 now))" by blast
  let ?t = "trace (run acts (TxExecutor nonce0 now))"
  have calls: "calls ?t = calls before @ (cb, v) # calls after"
    by (simp add: assms(1) observe_append)
  have sorted: "sorted (map (\<lambda>c. number (promise_of (fst c))) (calls ?t))"
    using inv by (simp add: in_order_def)
  have "j < d"
    using inv assms(2) by (auto simp add: in_order_def calls)
  with assms(3) have "(if hung (run acts (TxExecutor nonce0 now)) then Suc i else i) < d"
    by simp
  with inv obtain c where c: "c \<in> set (calls ?t)" "promise_of (fst c) = SubmittedPromise i"
    unfolding in_order_def by blast
  have "c \<notin> set ((cb, v) # calls after)"
  proof
    assume "c \<in> set ((cb, v) # calls after)"
    then have "j \<le> number (promise_of (fst c))"
      using sorted assms(2) by (auto simp add: calls sorted_append)
    with c(2) assms(3) show False by simp
  qed
  with c have "c \<in> set (calls before)" by (simp add: calls)
  with c(2) sorted show ?thesis by blast
qed

theorem submissions_settle_in_enqueue_order_witness:
  "trace (run [scenario_request, scenario_request,
               Work (scenario_env\<lparr>localStorage := (\<lambda>k. Some ''true'')\<rparr>),
               Work (scenario_env\<lparr>localStorage := (\<lambda>k. Some ''true'')\<rparr>)]
          (TxExecutor 5 1000)) =
     [ForwardOrThrow ''0xc0'' ''0xda''
        [(''gasPrice'', Num 1000000000), (''gasLimit'', Num 2000000), (''nonce'', Num 5)],
      Call (Resolve (SubmittedPromise 0))
        (Response \<lparr>hash = ''0xh1'', sender = ''0xA'', confirmations = 0\<rparr>),
      Call (Resolve (ReceiptPromise 0))
        (Receipt \<lparr>transactionHash = ''0xh1'', blockNumber = 7, status = Some 1\<rparr>),
      ForwardOrThrow ''0xc0'' ''0xda''
        [(''gasPrice'', Num 1000000000), (''gasLimit'', Num 2000000), (''nonce'', Num 6)]]
     @ Call (Resolve (SubmittedPromise 1))
        (Response \<lparr>hash = ''0xh1'', sender = ''0xA'', confirmations = 0\<rparr>)
     # [Call (Resolve (ReceiptPromise 1))
        (Receipt \<lparr>transactionHash = ''0xh1'', blockNumber = 7, status = Some 1\<rparr>)]
   \<and> (\<exists>c \<in> set (calls
        [ForwardOrThrow ''0xc0'' ''0xda''
           [(''gasPrice'', Num 1000000000), (''gasLimit'', Num 2000000), (''nonce'', Num 5)],
         Call (Resolve (SubmittedPromise 0))
           (Response \<lparr>hash = ''0xh1'', sender = ''0xA'', confirmations = 0\<rparr>),
         Call (Resolve (ReceiptPromise 0))
           (Receipt \<lparr>transactionHash = ''0xh1'', blockNumber = 7, status = Some 1\<rparr>),
         ForwardOrThrow ''0xc0'' ''0xda''
           [(''gasPrice'', Num 1000000000), (''gasLimit'', Num 2000000), (''nonce'', Num 6)]]).
        promise_of (fst c) = SubmittedPromise 0)"
proof -
  have t: "trace (run [scenario_request, scenario_request,
               Work (scenario_env\<lparr>localStorage := (\<lambda>k. Some ''true'')\<rparr>),
               Work (scenario_env\<lparr>localStorage := (\<lambda>k. Some ''true'')\<rparr>)]
          (TxExecutor 5 1000)) =
     [ForwardOrThrow ''0xc0'' ''0xda''
        [(''gasPrice'', Num 1000000000), (''gasLimit'', Num 2000000), (''nonce'', Num 5)],
      Call (Resolve (SubmittedPromise 0))
        (Response \<lparr>hash = ''0xh1'', sender = ''0xA'', confirmations = 0\<rparr>),
      Call (Resolve (ReceiptPromise 0))
        (Receipt \<lparr>transactionHash = ''0xh1'', blockNumber = 7, status = Some 1\<rparr>),
      ForwardOrThrow ''0xc0'' ''0xda''
        [(''gasPrice'', Num 1000000000), (''gasLimit'', Num 2000000), (''nonce'', Num 6)]]
     @ Call (Resolve (SubmittedPromise 1))
        (Response \<lparr>hash = ''0xh1'', sender = ''0xA'', confirmations = 0\<rparr>)
     # [Call (Resolve (ReceiptPromise 1))
        (Receipt \<lparr>transactionHash = ''0xh1'', blockNumber = 7, status = Some 1\<rparr>)]"
    by (simp add: run_defs)
  from submissions_settle_in_enqueue_order [OF t, of 1 0]
  show ?thesis using t by simp
qed

text \<open>
  C6, as the code has it. \<open>lastTransaction\<close> is the time of construction until a
  submission is acknowledged, and from then on the time of the last acknowledged
  submission. A request that passes the balance check, with the network answering the
  nonce query, is submitted with the network's nonce exactly when more than
  \<open>NONCE_STALE_AFTER_MS\<close> lie between \<open>lastTransaction\<close> and the check, and with the
  local nonce otherwise; that nonce is what the executor keeps when no submission is
  acknowledged, and what it adds 1 to (in double arithmetic) when one is.
\<close>

theorem staleness_is_measured_from_lastTransaction:
  assumes "getBalance e = Resolves b" and "\<not> b < MIN_BALANCE_ETH"
    and "getNonce e = Resolves n"
  shows "lastTransaction (TxExecutor nonce0 now) = now
       \<and> lastTransaction (snd (execute txRequest e w)) =
           (if responses (trace (snd (execute txRequest e w))) = responses (trace w)
            then lastTransaction w else now_submitted e)
       \<and> nonce (snd (execute txRequest e w)) =
           (if responses (trace (snd (execute txRequest e w))) = responses (trace w)
            then (if now_stale_check e - lastTransaction w > NONCE_STALE_AFTER_MS
                  then n else nonce w)
            else round_double
                   ((if now_stale_check e - lastTransaction w > NONCE_STALE_AFTER_MS
                     then n else nonce w) + 1))
       \<and> set (forwards (trace (snd (execute txRequest e w)))) \<subseteq>
           set (forwards (trace w)) \<union>
           {(to, data,
             AList.update ''nonce''
               (Num (if now_stale_check e - lastTransaction w > NONCE_STALE_AFTER_MS
                     then n else nonce w))
               (overrides txRequest)) | to data. True}"
  using assms
  by (cases "now_stale_check e - lastTransaction w > NONCE_STALE_AFTER_MS";
      cases rule: paths [where e = e and L = "lastTransaction w"];
      simp add: execute_def step_defs frame_defs observe_append TxExecutor_def)

theorem staleness_is_measured_from_lastTransaction_witness:
  "nonce (snd (execute scenario_queued (scenario_env\<lparr>now_stale_check := 21001\<rparr>) scenario_start)) = 10
   \<and> lastTransaction
        (snd (execute scenario_queued (scenario_env\<lparr>now_stale_check := 21001\<rparr>) scenario_start)) = 1100
   \<and> forwards (trace
        (snd (execute scenario_queued (scenario_env\<lparr>now_stale_check := 21001\<rparr>) scenario_start))) =
       [(''0xc0'', ''0xda'',
         [(''gasPrice'', Num 1000000000), (''gasLimit'', Num 2000000), (''nonce'', Num 9)])]"
proof -
  have "responses (trace (snd (execute scenario_queued (scenario_env\<lparr>now_stale_check := 21001\<rparr>)
          scenario_start))) \<noteq> responses (trace scenario_start)"
    and "forwards (trace
        (snd (execute scenario_queued (scenario_env\<lparr>now_stale_check := 21001\<rparr>) scenario_start))) =
       [(''0xc0'', ''0xda'',
         [(''gasPrice'', Num 1000000000), (''gasLimit'', Num 2000000), (''nonce'', Num 9)])]"
    by (simp_all add: scenario_defs step_defs frame_defs)
  then show ?thesis
    using staleness_is_measured_from_lastTransaction
      [where e = "scenario_env\<lparr>now_stale_check := 21001\<rparr>" and b = 1 and n = 9
         and txRequest = scenario_queued and w = scenario_start and ?nonce0.0 = 5 and now = 1000]
    by (simp add: scenario_start_fields scenario_env_def MIN_BALANCE_ETH_def
        NONCE_STALE_AFTER_MS_def round_double_exact)
qed

text \<open>
  C6 as stated fails: a first request, processed more than the threshold after the
  construction, has its nonce overwritten although no submission ever succeeded; and a
  request that fails the balance check long after the last acknowledged submission keeps
  the local nonce.
\<close>

theorem staleness_since_last_submission_counterexample:
  "responses (trace (worker
      (scenario_env\<lparr>now_stale_check := 21001,
                    openConfirmationWindowForTransaction := Rejects (Error ''denied'')\<rparr>)
      scenario_start)) = []
   \<and> nonce scenario_start = 5
   \<and> nonce (worker
      (scenario_env\<lparr>now_stale_check := 21001,
                    openConfirmationWindowForTransaction := Rejects (Error ''denied'')\<rparr>)
      scenario_start) = 9
   \<and> lastTransaction (worker scenario_env scenario_start) = 1100
   \<and> nonce (worker scenario_env scenario_start) = 6
   \<and> nonce (run [scenario_request,
                 Work (scenario_env\<lparr>getBalance := Resolves (1 / 1000), now_stale_check := 90000\<rparr>)]
        (worker scenario_env scenario_start)) = 6"
  by (simp add: scenario_defs step_defs frame_defs)

text \<open>
  C7, as the code has it. When every promise that \<open>execute\<close> awaits without a timeout
  settles, the call ends and the worker goes on with the rest of the queue; no error of a
  collaborator leaves \<open>execute\<close> (only an exception of the event logger does, and
  \<open>noop\<close> takes it); each error is delivered to the request's own callback, the
  submission one before the acknowledgement and the receipt one after it; exactly one
  record, holding what \<open>record_of_outcome\<close> says, is handed to the event logger, or none
  when the account has opted out; and whether the event logger throws changes neither the
  callbacks called nor the nonce nor the time of the last transaction.
\<close>

theorem every_outcome_is_contained_and_recorded:
  assumes "settles e" and "\<not> hung w" and "txRequests w = txRequest # rest"
  shows "\<not> hung (worker e w) \<and> txRequests (worker e w) = rest
       \<and> (fst (execute txRequest e w) = Done
          \<or> (\<exists>err. logEvent e = Some err \<and> fst (execute txRequest e w) = Raised err))
       \<and> logged (trace (worker e w)) =
           logged (trace w) @
           (if localStorage e (''optout-metrics-'' @ getAddress e) = Some ''true'' then []
            else [record_of_outcome txRequest e (new_calls w (worker e w))])
       \<and> (getBalance e = Rejects err \<longrightarrow>
            new_calls w (worker e w) = [(onSubmissionError txRequest, Failure err)])
       \<and> (getBalance e = Resolves b \<and> b < MIN_BALANCE_ETH \<longrightarrow>
            new_calls w (worker e w) =
              [(onSubmissionError txRequest, Failure (Error ''xDAI balance too low!''))])
       \<and> (balance_passes e \<and> now_stale_check e - lastTransaction w > NONCE_STALE_AFTER_MS \<and>
            getNonce e = Rejects err \<longrightarrow>
            new_calls w (worker e w) = [(onSubmissionError txRequest, Failure err)])
       \<and> (nonce_ready e w \<and> openConfirmationWindowForTransaction e = Rejects err \<longrightarrow>
            new_calls w (worker e w) = [(onSubmissionError txRequest, Failure err)])
       \<and> (gate_passed e w \<and> populateTransaction e = Rejects err \<longrightarrow>
            new_calls w (worker e w) = [(onSubmissionError txRequest, Failure err)])
       \<and> (populated e w \<and> forwardOrThrow e = Rejects err \<and>
            forward_settles_after e \<le> TX_SUBMIT_TIMEOUT \<longrightarrow>
            new_calls w (worker e w) = [(onSubmissionError txRequest, Failure err)])
       \<and> (populated e w \<and>
            (forwardOrThrow e = Never \<or> forward_settles_after e > TX_SUBMIT_TIMEOUT) \<longrightarrow>
            new_calls w (worker e w) =
              [(onSubmissionError txRequest,
                Failure (Error (''tx request '' @ actionId txRequest @
                                '' failed to submit: timed out}'')))])
       \<and> (populated e w \<and> forwardOrThrow e = Resolves response \<and>
            forward_settles_after e \<le> TX_SUBMIT_TIMEOUT \<and>
            waitForTransaction e = Rejects err \<and> now_submitted e \<noteq> 0 \<longrightarrow>
            new_calls w (worker e w) =
              [(onTransactionResponse txRequest, Response response),
               (onReceiptError txRequest, Failure err)])
       \<and> calls (trace (worker (e\<lparr>logEvent := sink\<rparr>) w)) = calls (trace (worker e w))
       \<and> nonce (worker (e\<lparr>logEvent := sink\<rparr>) w) = nonce (worker e w)
       \<and> lastTransaction (worker (e\<lparr>logEvent := sink\<rparr>) w) = lastTransaction (worker e w)"
proof -
  note same = new_calls_worker [OF assms(2,3), of e]
  have running: "fst (execute txRequest e w) \<noteq> Stuck"
    using assms(1) by (rule execute_settles)
  have goes_on: "\<not> hung (worker e w)" "txRequests (worker e w) = rest"
    using running worker_step(4,6) [OF assms(2,3), of e] by simp_all
  have contained: "fst (execute txRequest e w) = Done
          \<or> (\<exists>err. logEvent e = Some err \<and> fst (execute txRequest e w) = Raised err)"
    using running execute_raises [of txRequest e w] by simp
  have recorded: "logged (trace (worker e w)) =
           logged (trace w) @
           (if localStorage e (''optout-metrics-'' @ getAddress e) = Some ''true'' then []
            else [record_of_outcome txRequest e (new_calls w (worker e w))])"
    using worker_step(1) [OF assms(2,3), of e] execute_record [OF running]
    by (simp add: same observe_append split: completion.splits)
  have sink: "calls (trace (worker (e\<lparr>logEvent := sink\<rparr>) w)) = calls (trace (worker e w))"
    "nonce (worker (e\<lparr>logEvent := sink\<rparr>) w) = nonce (worker e w)"
    "lastTransaction (worker (e\<lparr>logEvent := sink\<rparr>) w) = lastTransaction (worker e w)"
    using worker_step(1-3) [OF assms(2,3), of e]
      worker_step(1-3) [OF assms(2,3), of "e\<lparr>logEvent := sink\<rparr>"]
    by (simp_all add: observe_append execute_sink split: completion.splits)
  show ?thesis
    unfolding same
    by (intro conjI impI goes_on contained recorded [unfolded same] sink;
        (elim conjE)?;
        rule delivers_balance_error delivers_balance_low delivers_nonce_error
          delivers_gate_error delivers_populate_error delivers_forward_error delivers_timeout
          delivers_receipt_error;
        assumption)
qed

theorem every_outcome_is_contained_and_recorded_witness:
  "settles scenario_env
   \<and> txRequests (worker scenario_env scenario_start) = []
   \<and> logged (trace (worker scenario_env scenario_start)) =
       [\<lparr>log_tx_type = ''MOVE'', log_time_exec_called = 1000, log_tx_hash = Some ''0xh1'',
         snark_logs = None, snark_local_verified = None, wait_submit = Some 98,
         wait_confirm = Some 198, log_error = None, wait_error = None, parsed_error = None,
         rpc_endpoint = ''rpc'', user_address = ''0xA''\<rparr>]
   \<and> new_calls scenario_start
        (worker (scenario_env\<lparr>openConfirmationWindowForTransaction := Rejects (Error ''denied'')\<rparr>)
           scenario_start) =
       [(Reject (SubmittedPromise 0), Failure (Error ''denied''))]
   \<and> logged (trace
        (worker (scenario_env\<lparr>openConfirmationWindowForTransaction := Rejects (Error ''denied'')\<rparr>)
           scenario_start)) =
       [\<lparr>log_tx_type = ''MOVE'', log_time_exec_called = 1000, log_tx_hash = None,
         snark_logs = None, snark_local_verified = None, wait_submit = None,
         wait_confirm = None, log_error = Some ''denied'', wait_error = Some 300,
         parsed_error = None, rpc_endpoint = ''rpc'', user_address = ''0xA''\<rparr>]"
proof -
  have calls: "new_calls scenario_start (worker scenario_env scenario_start) =
      [(Resolve (SubmittedPromise 0),
        Response \<lparr>hash = ''0xh1'', sender = ''0xA'', confirmations = 0\<rparr>),
       (Resolve (ReceiptPromise 0),
        Receipt \<lparr>transactionHash = ''0xh1'', blockNumber = 7, status = Some 1\<rparr>)]"
    by (simp add: new_calls_def scenario_defs step_defs frame_defs)
  have ok: "settles scenario_env"
    and denied: "settles (scenario_env\<lparr>openConfirmationWindowForTransaction :=
                   Rejects (Error ''denied'')\<rparr>)"
      "nonce_ready (scenario_env\<lparr>openConfirmationWindowForTransaction :=
                   Rejects (Error ''denied'')\<rparr>) scenario_start"
    by (simp_all add: settles_def scenario_env_def reach_defs scenario_start_fields
        MIN_BALANCE_ETH_def NONCE_STALE_AFTER_MS_def)
  show ?thesis
    using every_outcome_is_contained_and_recorded
        [of scenario_env scenario_start scenario_queued "[]" "Error ''denied''" 0
            "\<lparr>hash = ''0xh1'', sender = ''0xA'', confirmations = 0\<rparr>" None, OF ok]
      every_outcome_is_contained_and_recorded
        [of "scenario_env\<lparr>openConfirmationWindowForTransaction := Rejects (Error ''denied'')\<rparr>"
            scenario_start scenario_queued "[]" "Error ''denied''" 0
            "\<lparr>hash = ''0xh1'', sender = ''0xA'', confirmations = 0\<rparr>" None, OF denied(1)]
      ok denied(2) calls
    by (simp add: scenario_start_fields record_of_outcome_def scenario_env_def
        scenario_queued_def round_double_exact Error_def)
qed

text \<open>
  C7 as stated fails: the receipt wait has no timeout. When the receipt never comes the
  call of \<open>execute\<close> never ends: the worker is held for ever, the next request stays in
  the queue, and no record is handed to the event logger.
\<close>

theorem worker_never_halts_counterexample:
  "hung (run [scenario_request, scenario_request,
              Work (scenario_env\<lparr>waitForTransaction := Never\<rparr>), Work scenario_env]
         (TxExecutor 5 1000))
   \<and> length (txRequests (run [scenario_request, scenario_request,
              Work (scenario_env\<lparr>waitForTransaction := Never\<rparr>), Work scenario_env]
         (TxExecutor 5 1000))) = 1
   \<and> logged (trace (run [scenario_request, scenario_request,
              Work (scenario_env\<lparr>waitForTransaction := Never\<rparr>), Work scenario_env]
         (TxExecutor 5 1000))) = []
   \<and> calls (trace (run [scenario_request, scenario_request,
              Work (scenario_env\<lparr>waitForTransaction := Never\<rparr>), Work scenario_env]
         (TxExecutor 5 1000))) =
       [(Resolve (SubmittedPromise 0),
         Response \<lparr>hash = ''0xh1'', sender = ''0xA'', confirmations = 0\<rparr>)]"
  by (simp add: run_defs)

text \<open>
  C8. A call of \<open>execute\<close> that ends (with a clock that does not read 0 at the
  submission) calls exactly one of \<open>onTransactionResponse\<close> and \<open>onSubmissionError\<close>,
  first; after \<open>onTransactionResponse\<close> it calls exactly one of \<open>onTransactionReceipt\<close>
  and \<open>onReceiptError\<close>; after \<open>onSubmissionError\<close> it calls nothing more: a request
  that fails at submission never reaches the receipt phase.
\<close>

theorem callbacks_of_a_finished_request:
  assumes "fst (execute txRequest e w) \<noteq> Stuck" and "now_submitted e \<noteq> 0"
  shows "(\<exists>err. calls (trace (snd (execute txRequest e w))) =
                  calls (trace w) @ [(onSubmissionError txRequest, Failure err)])
       \<or> (\<exists>response receipt. calls (trace (snd (execute txRequest e w))) =
                  calls (trace w) @ [(onTransactionResponse txRequest, Response response),
                                     (onTransactionReceipt txRequest, Receipt receipt)])
       \<or> (\<exists>response err. calls (trace (snd (execute txRequest e w))) =
                  calls (trace w) @ [(onTransactionResponse txRequest, Response response),
                                     (onReceiptError txRequest, Failure err)])"
  using assms
  by (cases "now_stale_check e - lastTransaction w > NONCE_STALE_AFTER_MS";
      cases rule: paths [where e = e and L = "lastTransaction w"];
      simp add: execute_def step_defs frame_defs observe_append)

theorem callbacks_of_a_finished_request_witness:
  "calls (trace (snd (execute scenario_queued scenario_env scenario_start))) =
     [(Resolve (SubmittedPromise 0),
       Response \<lparr>hash = ''0xh1'', sender = ''0xA'', confirmations = 0\<rparr>),
      (Resolve (ReceiptPromise 0),
       Receipt \<lparr>transactionHash = ''0xh1'', blockNumber = 7, status = Some 1\<rparr>)]"
proof -
  have "fst (execute scenario_queued scenario_env scenario_start) \<noteq> Stuck"
    and "now_submitted scenario_env \<noteq> 0"
    by (simp_all add: scenario_defs step_defs frame_defs)
  from callbacks_of_a_finished_request [OF this]
  show ?thesis
    by (simp add: scenario_defs step_defs frame_defs)
qed

text \<open>
  C9. With the opt-out flag set for account \<open>a\<close> and not for account \<open>b\<close>: a request
  processed for \<open>a\<close> hands no record to the event logger; a request processed for \<open>b\<close>
  runs the same whatever is stored under the key of \<open>a\<close>, and when it ends exactly one
  record, with the address \<open>b\<close>, has been handed over.
\<close>

theorem opt_out_is_per_account:
  assumes "a \<noteq> b"
    and "localStorage e (''optout-metrics-'' @ a) = Some ''true''"
    and "localStorage e (''optout-metrics-'' @ b) \<noteq> Some ''true''"
  shows "logged (trace (snd (execute rA (e\<lparr>getAddress := a\<rparr>) w))) = logged (trace w)
       \<and> execute rB (e\<lparr>getAddress := b,
                         localStorage := (localStorage e)(''optout-metrics-'' @ a := flag)\<rparr>) w =
           execute rB (e\<lparr>getAddress := b\<rparr>) w
       \<and> (fst (execute rB (e\<lparr>getAddress := b\<rparr>) w) \<noteq> Stuck \<longrightarrow>
           map user_address (logged (trace (snd (execute rB (e\<lparr>getAddress := b\<rparr>) w)))) =
           map user_address (logged (trace w)) @ [b])"
proof -
  have "logged (trace (snd (execute rA (e\<lparr>getAddress := a\<rparr>) w))) = logged (trace w)"
    using assms(2) by (intro execute_opted_out) simp
  moreover have "execute rB (e\<lparr>getAddress := b,
                         localStorage := (localStorage e)(''optout-metrics-'' @ a := flag)\<rparr>) w =
           execute rB (e\<lparr>getAddress := b\<rparr>) w"
    using assms(1) by (intro execute_storage) simp
  moreover have "map user_address (logged (trace (snd (execute rB (e\<lparr>getAddress := b\<rparr>) w)))) =
           map user_address (logged (trace w)) @ [b]"
    if "fst (execute rB (e\<lparr>getAddress := b\<rparr>) w) \<noteq> Stuck"
    using execute_logged [OF that] assms(3) by simp
  ultimately show ?thesis by simp
qed

theorem opt_out_is_per_account_witness:
  "logged (trace (snd (execute scenario_queued
      (scenario_env\<lparr>localStorage := (\<lambda>k. None)(''optout-metrics-0xA'' := Some ''true''),
                    getAddress := ''0xA''\<rparr>) scenario_start))) = []
   \<and> map user_address (logged (trace (snd (execute scenario_queued
      (scenario_env\<lparr>localStorage := (\<lambda>k. None)(''optout-metrics-0xA'' := Some ''true''),
                    getAddress := ''0xB''\<rparr>) scenario_start)))) = [''0xB'']"
proof -
  have "fst (execute scenario_queued
      (scenario_env\<lparr>localStorage := (\<lambda>k. None)(''optout-metrics-0xA'' := Some ''true''),
                    getAddress := ''0xB''\<rparr>) scenario_start) \<noteq> Stuck"
    by (simp add: scenario_defs step_defs frame_defs)
  then show ?thesis
    using opt_out_is_per_account
      [of "''0xA''" "''0xB''"
          "scenario_env\<lparr>localStorage := (\<lambda>k. None)(''optout-metrics-0xA'' := Some ''true'')\<rparr>"
          scenario_queued scenario_start scenario_queued None]
    by (simp add: scenario_start_fields)
qed

text \<open>
  C10. A request made without overrides is queued with gas price 1000000000 and gas
  limit 2000000, and these are sent with the executor's nonce added; for any request the
  options sent are its overrides with the property \<open>nonce\<close> set to the executor's nonce,
  whatever the overrides held under that name.
\<close>

theorem default_overrides_merged_with_nonce:
  assumes "getBalance e = Resolves b" and "\<not> b < MIN_BALANCE_ETH"
    and "now_stale_check e - lastTransaction w > NONCE_STALE_AFTER_MS \<longrightarrow> getNonce e = Resolves n"
    and "openConfirmationWindowForTransaction e = Resolves ()"
    and "populateTransaction e = Resolves (to, data)"
    and "txRequests w = []" and "\<not> hung w"
  shows "map overrides (txRequests (snd (makeRequest ty aid con arguments None logs w))) =
           [[(''gasPrice'', Num 1000000000), (''gasLimit'', Num 2000000)]]
       \<and> forwards (trace (worker e (snd (makeRequest ty aid con arguments None logs w)))) =
           forwards (trace w) @
           [(to, data,
             [(''gasPrice'', Num 1000000000), (''gasLimit'', Num 2000000),
              (''nonce'', Num (if now_stale_check e - lastTransaction w > NONCE_STALE_AFTER_MS
                               then n else nonce w))])]
       \<and> forwards (trace (snd (execute txRequest e w))) =
           forwards (trace w) @
           [(to, data,
             AList.update ''nonce''
               (Num (if now_stale_check e - lastTransaction w > NONCE_STALE_AFTER_MS
                     then n else nonce w))
               (overrides txRequest))]
       \<and> map_of (AList.update ''nonce''
               (Num (if now_stale_check e - lastTransaction w > NONCE_STALE_AFTER_MS
                     then n else nonce w))
               (overrides txRequest)) ''nonce'' =
           Some (Num (if now_stale_check e - lastTransaction w > NONCE_STALE_AFTER_MS
                      then n else nonce w))"
proof -
  have general: "forwards (trace (snd (execute r e v))) =
           forwards (trace v) @
           [(to, data,
             AList.update ''nonce''
               (Num (if now_stale_check e - lastTransaction w > NONCE_STALE_AFTER_MS
                     then n else nonce w))
               (overrides r))]"
    if "lastTransaction v = lastTransaction w" and "nonce v = nonce w" for r v
    using assms(1-5) that
    by (cases "now_stale_check e - lastTransaction w > NONCE_STALE_AFTER_MS";
        cases rule: paths [where e = e and L = "lastTransaction w"];
        simp add: execute_def step_defs frame_defs observe_append)
  obtain p v where made: "makeRequest ty aid con arguments None logs w = (p, v)"
    by (cases "makeRequest ty aid con arguments None logs w")
  then obtain r where queue: "txRequests v = [r]" and r: "overrides r = default_overrides"
    and v: "lastTransaction v = lastTransaction w" "nonce v = nonce w" "trace v = trace w"
      "\<not> hung v"
    using assms(6,7) by (auto simp add: makeRequest_def Let_def)
  have "forwards (trace (worker e v)) = forwards (trace (snd (execute r e v)))"
    using worker_step(1) [OF v(4) queue, of e]
    by (simp add: observe_append split: completion.splits)
  then show ?thesis
    using general [OF v(1,2), of r] general [OF refl refl, of txRequest] made r v(3) queue
    by (simp add: default_overrides_def update_nonce)
qed

theorem default_overrides_merged_with_nonce_witness:
  "forwards (trace (worker scenario_env
      (snd (makeRequest ''MOVE'' ''a1'' ''core'' [] None None (TxExecutor 5 1000))))) =
     [(''0xc0'', ''0xda'',
       [(''gasPrice'', Num 1000000000), (''gasLimit'', Num 2000000), (''nonce'', Num 5)])]"
  using default_overrides_merged_with_nonce
    [of scenario_env 1 "TxExecutor 5 1000" 9 "''0xc0''" "''0xda''" "''MOVE''" "''a1''" "''core''" "[]" None
        scenario_queued]
  by (simp add: scenario_env_def TxExecutor_def MIN_BALANCE_ETH_def NONCE_STALE_AFTER_MS_def)

end
